theory Spec2Isabelle
  imports Main "HOL-Library.Sublist"
begin

section \<open>Column-address codec\<close>

text \<open>
  JavaScript strings are sequences of UTF-16 code units; this development uses
  \<^typ>\<open>string\<close>, whose characters carry the code units below 256. That covers every
  column letter, range, identifier and provider message used below.
  JavaScript numbers are doubles; every number computed here is an integer, and the model
  uses \<^typ>\<open>int\<close> and \<^typ>\<open>nat\<close>, which agree with the doubles below \<open>2^53\<close>
  (column strings of up to eleven letters).
\<close>

text \<open>
  \<^verbatim>\<open>
  private columnToIndex(col: string): number {
    let index = 0;
    for (let i = 0; i < col.length; i++) {
      index = index * 26 + (col.charCodeAt(i) - 'A'.charCodeAt(0) + 1);
    }
    return index - 1;
  }
  \<close>
\<close>

definition charCode :: "char \<Rightarrow> int" where
  "charCode c = int (of_char c)"

definition columnStep :: "int \<Rightarrow> char \<Rightarrow> int" where
  "columnStep index c = index * 26 + (charCode c - charCode CHR ''A'' + 1)"

definition columnToIndex :: "string \<Rightarrow> int" where
  "columnToIndex col = foldl columnStep 0 col - 1"

text \<open>
  The reading the specification gives of a column address: a numeral in base 26 whose
  symbols \<open>A\<close> to \<open>Z\<close> are the digits 1 to 26, most significant letter first.
\<close>

definition alphabet :: string where
  "alphabet = ''ABCDEFGHIJKLMNOPQRSTUVWXYZ''"

definition isColumnLetter :: "char \<Rightarrow> bool" where
  "isColumnLetter c = (c \<in> set alphabet)"

definition letterDigit :: "char \<Rightarrow> int" where
  "letterDigit c = int (length (takeWhile (\<lambda>x. x \<noteq> c) alphabet)) + 1"

fun base26 :: "string \<Rightarrow> int" where
  "base26 [] = 0"
| "base26 (c # cs) = letterDigit c * 26 ^ length cs + base26 cs"

text \<open>
  The order of column addresses on a sheet: shorter addresses first, addresses of the
  same length alphabetically.
\<close>

fun alphabetical :: "string \<Rightarrow> string \<Rightarrow> bool" where
  "alphabetical (a # as) (b # bs) =
     (letterDigit a < letterDigit b \<or> (a = b \<and> alphabetical as bs))"
| "alphabetical _ _ = False"

definition columnBefore :: "string \<Rightarrow> string \<Rightarrow> bool" where
  "columnBefore s t =
     (length s < length t \<or> (length s = length t \<and> alphabetical s t))"

section \<open>Strings and numbers of the host language\<close>

text \<open>
  \<open>String(n)\<close> and \<open>`${n}`\<close> for a non-negative integer \<open>n\<close> (below \<open>10^21\<close>,
  where JavaScript changes to exponent notation): the decimal digits, most significant first.
\<close>

definition digits :: string where
  "digits = ''0123456789''"

definition isDigit :: "char \<Rightarrow> bool" where
  "isDigit c = (c \<in> set digits)"

function decimal :: "nat \<Rightarrow> string" where
  "decimal n = (if n < 10 then [digits ! n] else decimal (n div 10) @ [digits ! (n mod 10)])"
  by pat_completeness auto
termination
  by (relation "measure (\<lambda>n. n)") auto

declare decimal.simps [simp del]

text \<open>\<open>haystack.includes(needle)\<close>: the needle occurs at some position of the haystack.\<close>

fun stringIncludes :: "string \<Rightarrow> string \<Rightarrow> bool" where
  "stringIncludes [] needle = (needle = [])"
| "stringIncludes (c # cs) needle = (prefix needle (c # cs) \<or> stringIncludes cs needle)"

section \<open>Data model\<close>

text \<open>
  \<open>columnMappings: Record<string, string>\<close>, field name to column letters, as the list of
  its entries in the order \<open>Object.entries\<close> gives them; the keys of an object are distinct.
  \<open>cm[key]\<close> is \<open>undefined\<close> for a missing key, which is falsy like the empty string:
  \<open>columnOf\<close> returns the empty string there, and each use below is a truthiness test or
  comes after one.
\<close>

type_synonym columnMapping = "(string \<times> string) list"

definition columnOf :: "columnMapping \<Rightarrow> string \<Rightarrow> string" where
  "columnOf cm key = (case map_of cm key of Some col \<Rightarrow> col | None \<Rightarrow> [])"

text \<open>
  \<open>Partial<SheetLead>\<close>: the entries of the object in \<open>Object.entries\<close> order; a field is
  a string, or \<open>undefined\<close> (\<open>None\<close>) when the key is present without a value. A key that
  is absent reads as \<open>undefined\<close> too.
\<close>

type_synonym partialLead = "(string \<times> string option) list"

definition field :: "partialLead \<Rightarrow> string \<Rightarrow> string option" where
  "field lead key = (case map_of lead key of Some v \<Rightarrow> v | None \<Rightarrow> None)"

text \<open>A lead as \<open>fetchLeads\<close> builds it: every mapped field with a string value.\<close>

type_synonym sheetLead = "(string \<times> string) list"

text \<open>
  The client object. \<open>localSecrets\<close> is a module outside the sources given; the constructor
  takes its five values as a record.
\<close>

record secrets =
  spreadsheetUrl :: string
  secretWorksheetNames :: "string list"
  secretColumnMappings :: columnMapping
  secretServiceAccountJson :: string
  googleApiKey :: string

record GoogleSheets =
  sheetId :: string
  worksheetNames :: "string list"
  columnMappings :: columnMapping
  serviceAccountJson :: string
  apiKey :: string

section \<open>Sheet identifier\<close>

text \<open>
  \<^verbatim>\<open>
  private extractSheetId(url: string) {
    const match = url.match(/\/spreadsheets\/d\/([a-zA-Z0-9-_]+)/);
    return match ? match[1] : '';
  }
  \<close>
  The regular expression is tried at each position from the left; at a position it matches
  when the literal \<open>/spreadsheets/d/\<close> is followed by at least one character of the class,
  and the group takes the longest run of such characters.
\<close>

definition idChars :: string where
  "idChars = ''abcdefghijklmnopqrstuvwxyzABCDEFGHIJKLMNOPQRSTUVWXYZ0123456789-_''"

definition isIdChar :: "char \<Rightarrow> bool" where
  "isIdChar c = (c \<in> set idChars)"

definition marker :: string where
  "marker = ''/spreadsheets/d/''"

definition matchAt :: "string \<Rightarrow> string option" where
  "matchAt s =
     (if prefix marker s \<and> takeWhile isIdChar (drop (length marker) s) \<noteq> []
      then Some (takeWhile isIdChar (drop (length marker) s)) else None)"

fun urlMatch :: "string \<Rightarrow> string option" where
  "urlMatch [] = matchAt []"
| "urlMatch (c # cs) =
     (case matchAt (c # cs) of Some g \<Rightarrow> Some g | None \<Rightarrow> urlMatch cs)"

definition extractSheetId :: "string \<Rightarrow> string" where
  "extractSheetId url = (case urlMatch url of Some g \<Rightarrow> g | None \<Rightarrow> [])"

definition constructor :: "secrets \<Rightarrow> GoogleSheets" where
  "constructor localSecrets =
     \<lparr> sheetId = extractSheetId (spreadsheetUrl localSecrets),
       worksheetNames = secretWorksheetNames localSecrets,
       columnMappings = secretColumnMappings localSecrets,
       serviceAccountJson = secretServiceAccountJson localSecrets,
       apiKey = googleApiKey localSecrets \<rparr>"

text \<open>\<open>this.worksheetNames[0] || 'MASTER DATA'\<close>\<close>

definition worksheetName :: "GoogleSheets \<Rightarrow> string" where
  "worksheetName c =
     (case worksheetNames c of
        [] \<Rightarrow> ''MASTER DATA''
      | w # _ \<Rightarrow> if w = [] then ''MASTER DATA'' else w)"

section \<open>Record mapper\<close>

text \<open>
  Reading a row, the callback of \<open>rows.map\<close> in \<open>fetchLeads\<close>:
  \<^verbatim>\<open>
  const lead: any = {};
  for (const [key, col] of Object.entries(cm)) {
    lead[key] = row[this.columnToIndex(col)] || '';
  }
  return lead as SheetLead;
  \<close>
  A row of the response is a JSON array of strings: reading outside it, or at a negative
  index, gives \<open>undefined\<close>, which \<open>|| ''\<close> turns into the empty string.
\<close>

definition cellAt :: "string list \<Rightarrow> int \<Rightarrow> string" where
  "cellAt row i = (if 0 \<le> i \<and> i < int (length row) then row ! nat i else [])"

definition rowToRecord :: "columnMapping \<Rightarrow> string list \<Rightarrow> sheetLead" where
  "rowToRecord cm row = map (\<lambda>(key, col). (key, cellAt row (columnToIndex col))) cm"

text \<open>
  Building a row, in \<open>appendLead\<close>:
  \<^verbatim>\<open>
  const maxCol = Math.max(...Object.values(cm).map((c) => this.columnToIndex(c)));
  const row: any[] = new Array(maxCol + 1).fill('');
  for (const [key, col] of Object.entries(cm)) {
    if (key === 'tripId') row[this.columnToIndex(col)] = lead.tripId || `T${Date.now()}`;
    else if (lead[key as keyof SheetLead] !== undefined)
      row[this.columnToIndex(col)] = lead[key as keyof SheetLead];
  }
  \<close>
  \<open>Math.max()\<close> of no arguments is \<open>-Infinity\<close> (\<open>None\<close> below), and \<open>new Array(n)\<close>
  throws a RangeError unless \<open>n\<close> is an integer from 0 to \<open>2^32 - 1\<close>. The row is what
  \<open>JSON.stringify\<close> sends: an assignment at a negative index (the column string is empty
  or starts below \<open>A\<close>) sets a property that is no element of the array and is not sent,
  so it leaves the row as it was. No index exceeds \<open>maxCol\<close>, so no assignment extends
  the array.
\<close>

datatype jsError = Error string | RangeError string | Thrown string string

fun message :: "jsError \<Rightarrow> string" where
  "message (Error m) = m"
| "message (RangeError m) = m"
| "message (Thrown name m) = m"

fun errorName :: "jsError \<Rightarrow> string" where
  "errorName (Error m) = ''Error''"
| "errorName (RangeError m) = ''RangeError''"
| "errorName (Thrown name m) = name"

definition maxCol :: "columnMapping \<Rightarrow> int option" where
  "maxCol cm =
     (case map (\<lambda>(key, col). columnToIndex col) cm of
        [] \<Rightarrow> None
      | i # rest \<Rightarrow> Some (foldl max i rest))"

definition newArray :: "int option \<Rightarrow> jsError + string list" where
  "newArray len =
     (case len of
        None \<Rightarrow> Inl (RangeError ''Invalid array length'')
      | Some n \<Rightarrow>
          if n < 0 \<or> 4294967295 < n then Inl (RangeError ''Invalid array length'')
          else Inr (replicate (nat n) []))"

definition setCell :: "string list \<Rightarrow> int \<Rightarrow> string \<Rightarrow> string list" where
  "setCell row i v = (if 0 \<le> i \<and> i < int (length row) then row[nat i := v] else row)"

definition tripIdOrNew :: "nat \<Rightarrow> partialLead \<Rightarrow> string" where
  "tripIdOrNew now lead =
     (case field lead ''tripId'' of
        Some t \<Rightarrow> if t \<noteq> [] then t else ''T'' @ decimal now
      | None \<Rightarrow> ''T'' @ decimal now)"

definition rowStep :: "nat \<Rightarrow> partialLead \<Rightarrow> string list \<Rightarrow> string \<times> string \<Rightarrow> string list" where
  "rowStep now lead row entry =
     (case entry of (key, col) \<Rightarrow>
        if key = ''tripId'' then setCell row (columnToIndex col) (tripIdOrNew now lead)
        else (case field lead key of
                Some v \<Rightarrow> setCell row (columnToIndex col) v
              | None \<Rightarrow> row))"

definition recordToRow :: "nat \<Rightarrow> partialLead \<Rightarrow> columnMapping \<Rightarrow> jsError + string list" where
  "recordToRow now lead cm =
     (case newArray (map_option (\<lambda>m. m + 1) (maxCol cm)) of
        Inl err \<Rightarrow> Inl err
      | Inr row \<Rightarrow> Inr (foldl (rowStep now lead) row cm))"

text \<open>
  Cell writes of an update, in \<open>updateLead\<close>:
  \<^verbatim>\<open>
  const data = Object.entries(updates)
    .filter(([key, val]) => val !== undefined && cm[key])
    .map(([key, val]) => ({
      range: `${worksheetName}!${cm[key]}${rowNumber}`,
      values: [[val]],
    }));
  \<close>
\<close>

definition isWritten :: "columnMapping \<Rightarrow> string \<times> string option \<Rightarrow> bool" where
  "isWritten cm entry = (case entry of (key, val) \<Rightarrow> val \<noteq> None \<and> columnOf cm key \<noteq> [])"

definition cellWrite :: "string \<Rightarrow> columnMapping \<Rightarrow> nat \<Rightarrow> string \<times> string option \<Rightarrow> string \<times> string" where
  "cellWrite ws cm rowNumber entry =
     (case entry of (key, val) \<Rightarrow>
        (ws @ ''!'' @ columnOf cm key @ decimal rowNumber,
         case val of Some v \<Rightarrow> v | None \<Rightarrow> []))"

definition cellWrites :: "string \<Rightarrow> columnMapping \<Rightarrow> nat \<Rightarrow> partialLead \<Rightarrow> (string \<times> string) list" where
  "cellWrites ws cm rowNumber updates =
     map (cellWrite ws cm rowNumber) (filter (isWritten cm) updates)"

section \<open>Lookup of a row by trip identifier\<close>

text \<open>
  In \<open>updateLead\<close>:
  \<^verbatim>\<open>
  const rowIndex = colVals.findIndex((v) => String(v) === String(tripId));
  if (rowIndex === -1) { ... throw new Error(`Trip ID ${tripId} not found.`); }
  const rowNumber = rowIndex + 2; // add 2 for header offset
  \<close>
  \<open>findIndex\<close> returns the first index whose element passes the test, or \<open>-1\<close>
  (\<open>None\<close> here).
\<close>

fun findIndex :: "('a \<Rightarrow> bool) \<Rightarrow> 'a list \<Rightarrow> nat option" where
  "findIndex p [] = None"
| "findIndex p (x # xs) = (if p x then Some 0 else map_option Suc (findIndex p xs))"

definition findRowByKey :: "string \<Rightarrow> string list \<Rightarrow> nat option" where
  "findRowByKey tripId colVals =
     map_option (\<lambda>rowIndex. rowIndex + 2) (findIndex (\<lambda>v. v = tripId) colVals)"

section \<open>The provider, and what an operation does\<close>

text \<open>
  The calls to \<open>fetch\<close>, each with the parts of the request the client computes: the
  sheet identifier, the range or worksheet, the API key or bearer token, and the body.
\<close>

datatype request =
    TokenExchange
  | GetValues string string string
  | GetColumn string string string
  | AppendValues string string string "string list"
  | BatchUpdate string string "(string \<times> string) list"

text \<open>
  What an operation does besides returning: the requests it sends, the alerts it shows and
  the console lines it writes (the label of each). An alert text is given without the
  pictograph and the space that start it in the source.
\<close>

datatype effect =
    Fetch request
  | Alert string
  | ConsoleWarn string
  | ConsoleError string
  | ConsoleLog string

text \<open>
  A call to \<open>fetch\<close> rejects (no connection), or resolves to a response with \<open>ok\<close>,
  \<open>statusText\<close> and a body. \<open>res.json()\<close> rejects on a body that is no JSON.
\<close>

datatype 'a response = NetworkError string | Response bool string 'a

datatype 'a json = Unparseable string | Json 'a

record valuesBody =
  stringified :: string
  "values" :: "string list list option"

text \<open>
  The world an operation runs in: the clock (\<open>Date.now()\<close>, milliseconds since 1970),
  the outcome of parsing the service account and signing the token request (the message of
  the exception, if one is thrown), and the provider's answer to each kind of request.
  The body of a token response is its \<open>access_token\<close>, the body of a batch response is
  \<open>result.error?.message\<close>.
\<close>

record world =
  dateNow :: nat
  signingFailure :: "(string \<times> string) option"
  tokenResponse :: "string json response"
  valuesResponse :: "valuesBody json response"
  appendResponse :: "string response"
  batchResponse :: "string option json response"

type_synonym 'a io = "effect list \<times> (jsError + 'a)"

definition andThen :: "'a io \<Rightarrow> ('a \<Rightarrow> 'b io) \<Rightarrow> 'b io" where
  "andThen m f =
     (case m of
        (fx, Inl err) \<Rightarrow> (fx, Inl err)
      | (fx, Inr a) \<Rightarrow> (case f a of (fx', r) \<Rightarrow> (fx @ fx', r)))"

definition requests :: "effect list \<Rightarrow> request list" where
  "requests fx = concat (map (\<lambda>e. case e of Fetch r \<Rightarrow> [r] | _ \<Rightarrow> []) fx)"

fun isBatchUpdate :: "request \<Rightarrow> bool" where
  "isBatchUpdate (BatchUpdate sid token data) = True"
| "isBatchUpdate _ = False"

section \<open>Access client\<close>

text \<open>
  \<^verbatim>\<open>
  private async getAccessToken(): Promise<string> {
    if (!this.serviceAccountJson) throw new Error('Service Account JSON required.');
    const serviceAccount = JSON.parse(this.serviceAccountJson);
    ... (the token request is built and signed) ...
    const res = await fetch('https://oauth2.googleapis.com/token', { ... });
    if (!res.ok) throw new Error('Failed to get access token.');
    const data = await res.json();
    return data.access_token;
  }
  \<close>
\<close>

definition getAccessToken :: "GoogleSheets \<Rightarrow> world \<Rightarrow> string io" where
  "getAccessToken c w =
     (if serviceAccountJson c = [] then ([], Inl (Error ''Service Account JSON required.''))
      else case signingFailure w of
        Some (name, m) \<Rightarrow> ([], Inl (Thrown name m))
      | None \<Rightarrow>
          ([Fetch TokenExchange],
           case tokenResponse w of
             NetworkError m \<Rightarrow> Inl (Thrown ''TypeError'' m)
           | Response ok statusText body \<Rightarrow>
               if \<not> ok then Inl (Error ''Failed to get access token.'')
               else (case body of
                       Unparseable m \<Rightarrow> Inl (Thrown ''SyntaxError'' m)
                     | Json access_token \<Rightarrow> Inr access_token)))"

text \<open>
  \<^verbatim>\<open>
  async fetchLeads(): Promise<SheetLead[]> {
    const worksheetName = this.worksheetNames[0] || 'MASTER DATA';
    const cm = this.columnMappings;
    const range = `${worksheetName}!A2:AZ10000`;
    const url = `${SHEETS_API_BASE}/${this.sheetId}/values/${encodeURIComponent(range)}?key=${this.apiKey}`;
    const res = await fetch(url);
    if (!res.ok) throw new Error('Failed to fetch leads.');
    const data = await res.json();
    const rows = data.values || [];
    return rows.map((row: any[]) => { ... });
  }
  \<close>
\<close>

definition fetchLeads :: "GoogleSheets \<Rightarrow> world \<Rightarrow> sheetLead list io" where
  "fetchLeads c w =
     ([Fetch (GetValues (sheetId c) (worksheetName c @ ''!A2:AZ10000'') (apiKey c))],
      case valuesResponse w of
        NetworkError m \<Rightarrow> Inl (Thrown ''TypeError'' m)
      | Response ok statusText body \<Rightarrow>
          if \<not> ok then Inl (Error ''Failed to fetch leads.'')
          else (case body of
                  Unparseable m \<Rightarrow> Inl (Thrown ''SyntaxError'' m)
                | Json data \<Rightarrow>
                    Inr (map (rowToRecord (columnMappings c))
                           (case values data of None \<Rightarrow> [] | Some rows \<Rightarrow> rows))))"

text \<open>
  \<^verbatim>\<open>
  async appendLead(lead: Partial<SheetLead>) {
    const token = await this.getAccessToken();
    ... (the row is built) ...
    const res = await fetch(url, { method: 'POST', ..., body: JSON.stringify({ values: [row] }) });
    if (!res.ok) throw new Error(`Failed to append lead: ${await res.text()}`);
  }
  \<close>
\<close>

definition appendLead :: "GoogleSheets \<Rightarrow> world \<Rightarrow> partialLead \<Rightarrow> unit io" where
  "appendLead c w lead =
     andThen (getAccessToken c w) (\<lambda>token.
       case recordToRow (dateNow w) lead (columnMappings c) of
         Inl err \<Rightarrow> ([], Inl err)
       | Inr row \<Rightarrow>
           ([Fetch (AppendValues (sheetId c) (worksheetName c) token row)],
            case appendResponse w of
              NetworkError m \<Rightarrow> Inl (Thrown ''TypeError'' m)
            | Response ok statusText text \<Rightarrow>
                if \<not> ok then Inl (Error (''Failed to append lead: '' @ text))
                else Inr ()))"

text \<open>
  \<open>updateLead\<close>, first the body of its \<open>try\<close> block, step by step.
  \<^verbatim>\<open>
  const tripIdCol = cm.tripId || 'A';
  const range = `${worksheetName}!${tripIdCol}2:${tripIdCol}10000`;
  const findUrl = `${SHEETS_API_BASE}/${this.sheetId}/values/${encodeURIComponent(range)}?majorDimension=COLUMNS`;
  const resFind = await fetch(findUrl, { headers: { Authorization: `Bearer ${token}` } });
  const dataFind = await resFind.json();
  if (!resFind.ok) throw new Error(`Failed to read Trip IDs: ${JSON.stringify(dataFind)}`);
  const colVals: string[] = (dataFind.values && dataFind.values[0]) || [];
  \<close>
\<close>

definition tripIdCol :: "columnMapping \<Rightarrow> string" where
  "tripIdCol cm = (if columnOf cm ''tripId'' \<noteq> [] then columnOf cm ''tripId'' else ''A'')"

definition keyRange :: "GoogleSheets \<Rightarrow> string" where
  "keyRange c =
     worksheetName c @ ''!'' @ tripIdCol (columnMappings c) @ ''2:''
       @ tripIdCol (columnMappings c) @ ''10000''"

definition readTripIds :: "GoogleSheets \<Rightarrow> world \<Rightarrow> string \<Rightarrow> string list io" where
  "readTripIds c w token =
     ([Fetch (GetColumn (sheetId c) (keyRange c) token)],
      case valuesResponse w of
        NetworkError m \<Rightarrow> Inl (Thrown ''TypeError'' m)
      | Response ok statusText body \<Rightarrow>
          (case body of
             Unparseable m \<Rightarrow> Inl (Thrown ''SyntaxError'' m)
           | Json dataFind \<Rightarrow>
               if \<not> ok then Inl (Error (''Failed to read Trip IDs: '' @ stringified dataFind))
               else Inr (case values dataFind of
                           None \<Rightarrow> []
                         | Some [] \<Rightarrow> []
                         | Some (col # _) \<Rightarrow> col)))"

text \<open>
  \<^verbatim>\<open>
  const res = await fetch(batchUrl, { method: 'POST', ...,
    body: JSON.stringify({ valueInputOption: 'USER_ENTERED', data }) });
  const result = await res.json();
  if (!res.ok) {
    console.error('... Google Sheet update failed:', result);
    alert(`... Lead update failed: ${result.error?.message || res.statusText}`);
    return;
  }
  console.log('... Lead updated in Sheet:', result);
  alert('... Lead updated in Sheet successfully!');
  \<close>
\<close>

definition batchUpdate :: "GoogleSheets \<Rightarrow> world \<Rightarrow> string \<Rightarrow> (string \<times> string) list \<Rightarrow> unit io" where
  "batchUpdate c w token data =
     (case batchResponse w of
        NetworkError m \<Rightarrow>
          ([Fetch (BatchUpdate (sheetId c) token data)], Inl (Thrown ''TypeError'' m))
      | Response ok statusText body \<Rightarrow>
          (case body of
             Unparseable m \<Rightarrow>
               ([Fetch (BatchUpdate (sheetId c) token data)], Inl (Thrown ''SyntaxError'' m))
           | Json errorMessage \<Rightarrow>
               if \<not> ok then
                 ([Fetch (BatchUpdate (sheetId c) token data),
                   ConsoleError ''Google Sheet update failed:'',
                   Alert (''Lead update failed: '' @
                     (case errorMessage of
                        Some m \<Rightarrow> if m \<noteq> [] then m else statusText
                      | None \<Rightarrow> statusText))],
                  Inr ())
               else
                 ([Fetch (BatchUpdate (sheetId c) token data),
                   ConsoleLog ''Lead updated in Sheet:'',
                   Alert ''Lead updated in Sheet successfully!''],
                  Inr ())))"

text \<open>
  \<^verbatim>\<open>
  const token = await this.getAccessToken();
  ... (the trip identifiers are read) ...
  const rowIndex = colVals.findIndex((v) => String(v) === String(tripId));
  if (rowIndex === -1) {
    alert(`... Trip ID ${tripId} not found in Google Sheet.`);
    throw new Error(`Trip ID ${tripId} not found.`);
  }
  const rowNumber = rowIndex + 2;
  ... (the cell writes are built) ...
  if (data.length === 0) {
    console.warn('No valid fields to update for lead:', tripId);
    return;
  }
  ... (the batch update is sent) ...
  \<close>
\<close>

definition updateLeadTry :: "GoogleSheets \<Rightarrow> world \<Rightarrow> string \<Rightarrow> partialLead \<Rightarrow> unit io" where
  "updateLeadTry c w tripId updates =
     andThen (getAccessToken c w) (\<lambda>token.
     andThen (readTripIds c w token) (\<lambda>colVals.
       case findRowByKey tripId colVals of
         None \<Rightarrow>
           ([Alert (''Trip ID '' @ tripId @ '' not found in Google Sheet.'')],
            Inl (Error (''Trip ID '' @ tripId @ '' not found.'')))
       | Some rowNumber \<Rightarrow>
           if cellWrites (worksheetName c) (columnMappings c) rowNumber updates = []
           then ([ConsoleWarn ''No valid fields to update for lead:''], Inr ())
           else batchUpdate c w token
                  (cellWrites (worksheetName c) (columnMappings c) rowNumber updates)))"

text \<open>
  \<^verbatim>\<open>
  async updateLead(tripId: string, updates: Partial<SheetLead>) {
    try { ... }
    catch (err: any) {
      console.error('UpdateLead error:', err);
      alert(`... Error updating lead: ${err.message || err}`);
    }
  }
  \<close>
  An error whose message is empty is shown by its name.
\<close>

definition updateLead :: "GoogleSheets \<Rightarrow> world \<Rightarrow> string \<Rightarrow> partialLead \<Rightarrow> unit io" where
  "updateLead c w tripId updates =
     (case updateLeadTry c w tripId updates of
        (fx, Inl err) \<Rightarrow>
          (fx @ [ConsoleError ''UpdateLead error:'',
                 Alert (''Error updating lead: '' @
                   (if message err \<noteq> [] then message err else errorName err))],
           Inr ())
      | (fx, Inr u) \<Rightarrow> (fx, Inr ()))"

section \<open>The dialog that adds a lead\<close>

text \<open>
  \<open>handleSubmit\<close> of the dialog.
  \<^verbatim>\<open>
  const handleSubmit = async (e: React.FormEvent) => {
    e.preventDefault();
    setSaving(true);
    try {
      const session = authLib.getSession();
      const sheetsService = new GoogleSheetsBackendService();
      await sheetsService.appendLead({
        tripId: formData.tripId,
        date: new Date().toISOString().split('T')[0],
        consultant: session?.user.name || '',
        status: formData.status,
        ... (the other fields of the form) ...
      });
      toast({ title: "Lead added successfully",
              description: "The lead has been added to Google Sheets" });
      onSuccess();
      onClose();
    } catch (error: any) {
      // Check if it's a protection error
      if (error.message && error.message.includes('protected')) {
        setShowProtectionError(true);
      } else {
        toast({ variant: "destructive", title: "Error adding lead", description: error.message });
      }
    } finally {
      setSaving(false);
    }
  };
  \<close>
  The function names two identifiers of its module, \<open>authLib\<close> and
  \<open>GoogleSheetsBackendService\<close>. What the module binds is a record: for each of the two
  names \<open>None\<close> when the module does not bind it, so that evaluating it throws a
  ReferenceError, and otherwise what it is bound to: for \<open>authLib\<close> the name of the user
  of the session that \<open>getSession()\<close> returns (\<open>None\<close> when there is no session), for
  \<open>GoogleSheetsBackendService\<close> the \<open>appendLead\<close> of the object it constructs.
\<close>

datatype ui =
    SetSaving bool
  | SetShowProtectionError bool
  | Toast string string
  | ToastDestructive string string
  | OnSuccess
  | OnClose

record moduleScope =
  authLib :: "string option option"
  GoogleSheetsBackendService :: "(partialLead \<Rightarrow> unit io) option"

text \<open>
  The module of the dialog as it stands. It imports \<open>authService\<close> from
  \<open>@/lib/authService\<close> and \<open>GoogleSheetsService\<close> from \<open>@/lib/googleSheets\<close>, and uses
  neither; it imports or declares neither \<open>authLib\<close> nor \<open>GoogleSheetsBackendService\<close>.
\<close>

definition dialogScope :: moduleScope where
  "dialogScope = \<lparr> authLib = None, GoogleSheetsBackendService = None \<rparr>"

definition formLead :: "(string \<Rightarrow> string) \<Rightarrow> string \<Rightarrow> string \<Rightarrow> partialLead" where
  "formLead formData today consultant =
     [(''tripId'', Some (formData ''tripId'')),
      (''date'', Some today),
      (''consultant'', Some consultant),
      (''status'', Some (formData ''status'')),
      (''travellerName'', Some (formData ''travellerName'')),
      (''travelDate'', Some (formData ''travelDate'')),
      (''travelState'', Some (formData ''travelState'')),
      (''remarks'', Some (formData ''remarks'')),
      (''nights'', Some (formData ''nights'')),
      (''pax'', Some (formData ''pax'')),
      (''hotelCategory'', Some (formData ''hotelCategory'')),
      (''mealPlan'', Some (formData ''mealPlan'')),
      (''phone'', Some (formData ''phone'')),
      (''email'', Some (formData ''email''))]"

text \<open>
  The \<open>try\<close> block, up to the end of the awaited \<open>appendLead\<close>. \<open>today\<close> is
  \<open>new Date().toISOString().split('T')[0]\<close>.
\<close>

definition handleSubmitTry :: "moduleScope \<Rightarrow> (string \<Rightarrow> string) \<Rightarrow> string \<Rightarrow> unit io" where
  "handleSubmitTry scope formData today =
     (case authLib scope of
        None \<Rightarrow> ([], Inl (Thrown ''ReferenceError'' ''authLib is not defined''))
      | Some session \<Rightarrow>
          (case GoogleSheetsBackendService scope of
             None \<Rightarrow>
               ([], Inl (Thrown ''ReferenceError'' ''GoogleSheetsBackendService is not defined''))
           | Some sheetsService_appendLead \<Rightarrow>
               sheetsService_appendLead
                 (formLead formData today
                    (case session of Some name \<Rightarrow> name | None \<Rightarrow> []))))"

definition isProtectionError :: "jsError \<Rightarrow> bool" where
  "isProtectionError err = (message err \<noteq> [] \<and> stringIncludes (message err) ''protected'')"

definition handleSubmit ::
  "moduleScope \<Rightarrow> (string \<Rightarrow> string) \<Rightarrow> string \<Rightarrow> ui list \<times> effect list" where
  "handleSubmit scope formData today =
     (case handleSubmitTry scope formData today of
        (fx, Inr u) \<Rightarrow>
          ([SetSaving True,
            Toast ''Lead added successfully'' ''The lead has been added to Google Sheets'',
            OnSuccess, OnClose, SetSaving False], fx)
      | (fx, Inl err) \<Rightarrow>
          if isProtectionError err
          then ([SetSaving True, SetShowProtectionError True, SetSaving False], fx)
          else ([SetSaving True, ToastDestructive ''Error adding lead'' (message err),
                 SetSaving False], fx))"

section \<open>Notions used to state the properties\<close>

text \<open>
  A spreadsheet URL has a sheet identifier when the text \<open>/spreadsheets/d/\<close> occurs in
  it, followed by a character an identifier may have.
\<close>

definition hasSheetId :: "string \<Rightarrow> bool" where
  "hasSheetId url = list_ex (\<lambda>x. sublist (marker @ [x]) url) idChars"

text \<open>The value the loop of \<open>appendLead\<close> assigns for a key, if it assigns one.\<close>

definition written :: "nat \<Rightarrow> partialLead \<Rightarrow> string \<Rightarrow> string option" where
  "written now lead key =
     (if key = ''tripId'' then Some (tripIdOrNew now lead) else field lead key)"

text \<open>
  A client and a world for the concrete cases: the worksheet is \<open>Sheet\<close>, the mapping is
  \<open>{tripId: "A", status: "B"}\<close>, every request succeeds, and the key column holds
  \<open>T0\<close> in row 2 and \<open>T1\<close> in row 3.
\<close>

definition exampleClient :: GoogleSheets where
  "exampleClient =
     \<lparr> sheetId = ''1AbC-_9'', worksheetNames = [''Sheet''],
       columnMappings = [(''tripId'', ''A''), (''status'', ''B'')],
       serviceAccountJson = ''{...}'', apiKey = ''key'' \<rparr>"

definition exampleWorld :: world where
  "exampleWorld =
     \<lparr> dateNow = 1700000000000, signingFailure = None,
       tokenResponse = Response True ''OK'' (Json ''token''),
       valuesResponse =
         Response True ''OK'' (Json \<lparr> stringified = ''{...}'', values = Some [[''T0'', ''T1'']] \<rparr>),
       appendResponse = Response True ''OK'' ''{...}'',
       batchResponse = Response True ''OK'' (Json None) \<rparr>"

text \<open>
  Three more worlds: one whose sheet is protected (the append and the batch update are
  refused with that message), one that refuses reads and appends for quota, and one whose
  token endpoint refuses the exchange.
\<close>

definition protectedWorld :: world where
  "protectedWorld =
     exampleWorld\<lparr>appendResponse := Response False ''Forbidden'' ''The range is protected.'',
       batchResponse := Response False ''Forbidden'' (Json (Some ''The range is protected.''))\<rparr>"

definition refusingWorld :: world where
  "refusingWorld =
     exampleWorld\<lparr>valuesResponse :=
         Response False ''Too Many Requests''
           (Json \<lparr>stringified = ''{error: quota}'', values = None\<rparr>),
       appendResponse := Response False ''Too Many Requests'' ''Quota exceeded.''\<rparr>"

definition tokenlessWorld :: world where
  "tokenlessWorld =
     exampleWorld\<lparr>tokenResponse := Response False ''Unauthorized'' (Json [])\<rparr>"

section \<open>Properties of the column-address codec\<close>

lemma letterDigit_code:
  "isColumnLetter c \<Longrightarrow> letterDigit c = charCode c - charCode CHR ''A'' + 1"
  unfolding isColumnLetter_def alphabet_def set_simps insert_iff empty_iff
  by (elim disjE FalseE) (simp_all add: letterDigit_def alphabet_def charCode_def)

lemma letterDigit_range: "isColumnLetter c \<Longrightarrow> 1 \<le> letterDigit c \<and> letterDigit c \<le> 26"
  unfolding isColumnLetter_def alphabet_def set_simps insert_iff empty_iff
  by (elim disjE FalseE) (simp_all add: letterDigit_def alphabet_def)

lemma foldl_columnStep:
  "foldl columnStep acc cs = acc * 26 ^ length cs + foldl columnStep 0 cs"
proof (induction cs arbitrary: acc)
  case Nil
  then show ?case by simp
next
  case (Cons c cs)
  have a: "foldl columnStep acc (c # cs) =
             columnStep acc c * 26 ^ length cs + foldl columnStep 0 cs"
    using Cons.IH [of "columnStep acc c"] by simp
  have b: "foldl columnStep 0 (c # cs) =
             columnStep 0 c * 26 ^ length cs + foldl columnStep 0 cs"
    using Cons.IH [of "columnStep 0 c"] by simp
  show ?case unfolding a b
    by (simp add: columnStep_def algebra_simps)
qed

lemma foldl_base26: "list_all isColumnLetter cs \<Longrightarrow> foldl columnStep 0 cs = base26 cs"
proof (induction cs)
  case Nil
  then show ?case by simp
next
  case (Cons c cs)
  then have "foldl columnStep 0 (c # cs) = columnStep 0 c * 26 ^ length cs + base26 cs"
    using foldl_columnStep [of "columnStep 0 c" cs] by simp
  moreover have "columnStep 0 c = letterDigit c"
    using Cons.prems by (simp add: columnStep_def letterDigit_code)
  ultimately show ?case by simp
qed

text \<open>
  An address of \<open>n\<close> letters lies between \<open>AA...A\<close> and \<open>ZZ...Z\<close>; multiplied by 25
  the two bounds are \<open>26^n - 1\<close> and \<open>26^(n+1) - 26\<close>.
\<close>

lemma base26_bounds:
  "list_all isColumnLetter cs \<Longrightarrow>
     26 ^ length cs - 1 \<le> 25 * base26 cs \<and> 25 * base26 cs \<le> 26 ^ (length cs + 1) - 26"
proof (induction cs)
  case Nil
  then show ?case by simp
next
  case (Cons c cs)
  define q :: int where "q = 26 ^ length cs"
  define p where "p = letterDigit c * q"
  have d: "1 \<le> letterDigit c" "letterDigit c \<le> 26"
    using Cons.prems letterDigit_range by auto
  have "0 \<le> q" by (simp add: q_def)
  with d have lo: "1 * q \<le> p" and hi: "p \<le> 26 * q"
    unfolding p_def by (intro mult_right_mono; simp)+
  have ih: "q - 1 \<le> 25 * base26 cs" "25 * base26 cs \<le> 26 * q - 26"
    using Cons by (simp_all add: q_def)
  have e: "25 * base26 (c # cs) = 25 * p + 25 * base26 cs"
    by (simp add: p_def q_def)
  have l: "(26::int) ^ length (c # cs) = 26 * q"
    "(26::int) ^ (length (c # cs) + 1) = 26 * (26 * q)"
    by (simp_all add: q_def)
  have "26 * q - 1 \<le> 25 * p + 25 * base26 cs" using lo ih by linarith
  moreover have "25 * p + 25 * base26 cs \<le> 26 * (26 * q) - 26" using hi ih by linarith
  ultimately show ?case unfolding e l by blast
qed

lemma alphabetical_less:
  "length s = length t \<Longrightarrow> list_all isColumnLetter s \<Longrightarrow> list_all isColumnLetter t \<Longrightarrow>
   alphabetical s t \<Longrightarrow> base26 s < base26 t"
proof (induction s t rule: list_induct2)
  case Nil
  then show ?case by simp
next
  case (Cons a as b bs)
  show ?case
  proof (cases "letterDigit a < letterDigit b")
    case True
    then have "letterDigit a + 1 \<le> letterDigit b" by simp
    then have "(letterDigit a + 1) * 26 ^ length bs \<le> letterDigit b * 26 ^ length bs"
      by (intro mult_right_mono) auto
    moreover have "25 * base26 as \<le> 26 ^ (length as + 1) - 26"
      using base26_bounds [of as] Cons.prems by simp
    moreover have "26 ^ length bs - 1 \<le> 25 * base26 bs"
      using base26_bounds [of bs] Cons.prems by simp
    ultimately show ?thesis using Cons.hyps by (simp add: algebra_simps)
  next
    case False
    with Cons.prems have "a = b" "alphabetical as bs" by auto
    with Cons show ?thesis by simp
  qed
qed

lemma shorter_less:
  assumes "length s < length t" "list_all isColumnLetter s" "list_all isColumnLetter t"
  shows "base26 s < base26 t"
proof -
  have "25 * base26 s \<le> 26 ^ (length s + 1) - 26"
    using base26_bounds [of s] assms by simp
  moreover have "(26::int) ^ (length s + 1) \<le> 26 ^ length t"
    using assms(1) by (intro power_increasing) auto
  moreover have "26 ^ length t - 1 \<le> 25 * base26 t"
    using base26_bounds [of t] assms by simp
  ultimately show ?thesis by linarith
qed

lemma columnBefore_less:
  assumes "list_all isColumnLetter s" "list_all isColumnLetter t" "columnBefore s t"
  shows "columnToIndex s < columnToIndex t"
proof -
  have "base26 s < base26 t"
    using assms alphabetical_less shorter_less unfolding columnBefore_def by blast
  then show ?thesis using assms by (simp add: columnToIndex_def foldl_base26)
qed

text \<open>
  C7. \<open>columnToIndex\<close> gives 0 for \<open>A\<close>, 25 for \<open>Z\<close>, 26 for \<open>AA\<close> and 51 for \<open>AZ\<close>.
  On a string of the letters \<open>A\<close> to \<open>Z\<close> it is the base-26 numeral with the digits
  1 to 26, less one, and it is strictly increasing in the order of column addresses:
  shorter addresses first, alphabetical among those of one length.
\<close>

theorem columnToIndex_base26_increasing:
  "columnToIndex ''A'' = 0 \<and> columnToIndex ''Z'' = 25
   \<and> columnToIndex ''AA'' = 26 \<and> columnToIndex ''AZ'' = 51
   \<and> (list_all isColumnLetter s \<longrightarrow> columnToIndex s = base26 s - 1)
   \<and> (list_all isColumnLetter s \<and> list_all isColumnLetter t \<and> columnBefore s t
        \<longrightarrow> columnToIndex s < columnToIndex t)"
proof -
  have "columnToIndex ''A'' = 0" "columnToIndex ''Z'' = 25"
    "columnToIndex ''AA'' = 26" "columnToIndex ''AZ'' = 51"
    by (simp_all add: columnToIndex_def columnStep_def charCode_def)
  moreover have "list_all isColumnLetter s \<longrightarrow> columnToIndex s = base26 s - 1"
    by (simp add: columnToIndex_def foldl_base26)
  ultimately show ?thesis using columnBefore_less [of s t] by blast
qed

theorem columnToIndex_base26_increasing_witness:
  "list_all isColumnLetter ''Z'' \<and> list_all isColumnLetter ''AA'' \<and> columnBefore ''Z'' ''AA''
   \<and> columnToIndex ''Z'' = base26 ''Z'' - 1 \<and> columnToIndex ''Z'' < columnToIndex ''AA''"
proof -
  have h: "list_all isColumnLetter ''Z''" "list_all isColumnLetter ''AA''"
    "columnBefore ''Z'' ''AA''"
    by (simp_all add: isColumnLetter_def alphabet_def columnBefore_def)
  with columnToIndex_base26_increasing [of "''Z''" "''AA''"] show ?thesis by blast
qed

section \<open>Properties of the sheet identifier\<close>

lemma matchAt_nonempty: "matchAt s = Some g \<Longrightarrow> g \<noteq> []"
  by (auto simp: matchAt_def split: if_splits)

lemma urlMatch_nonempty: "urlMatch s = Some g \<Longrightarrow> g \<noteq> []"
  by (induction s) (auto simp: matchAt_nonempty split: option.splits)

lemma matchAt_prefix:
  assumes "matchAt s = Some g"
  shows "\<exists>x. isIdChar x \<and> prefix (marker @ [x]) s"
proof -
  from assms have p: "prefix marker s"
    and n: "takeWhile isIdChar (drop (length marker) s) \<noteq> []"
    by (auto simp: matchAt_def split: if_splits)
  from p obtain rest where s: "s = marker @ rest" by (auto simp: prefix_def)
  with n obtain x xs where rest: "rest = x # xs" and x: "isIdChar x"
    by (cases rest) (auto split: if_splits)
  have "prefix (marker @ [x]) s" unfolding s rest by simp
  with x show ?thesis by blast
qed

lemma urlMatch_sublist:
  "urlMatch s = Some g \<Longrightarrow> \<exists>x. isIdChar x \<and> sublist (marker @ [x]) s"
proof (induction s)
  case Nil
  then show ?case using matchAt_prefix [of "[]" g] by auto
next
  case (Cons c cs)
  show ?case
  proof (cases "matchAt (c # cs)")
    case None
    with Cons obtain x where "isIdChar x" "sublist (marker @ [x]) cs" by auto
    then show ?thesis by (auto simp: sublist_Cons_right)
  next
    case (Some h)
    from matchAt_prefix [OF this] show ?thesis by (auto simp: sublist_Cons_right)
  qed
qed

lemma matchAt_here:
  assumes "isIdChar x"
  shows "\<exists>h. matchAt (marker @ x # post) = Some h"
proof -
  have "takeWhile isIdChar (drop (length marker) (marker @ x # post)) \<noteq> []"
    using assms by simp
  then show ?thesis by (simp add: matchAt_def)
qed

lemma urlMatch_Some:
  assumes "isIdChar x"
  shows "\<exists>h. urlMatch (pre @ marker @ x # post) = Some h"
proof (induction pre)
  case Nil
  from matchAt_here [OF assms] obtain h where h: "matchAt (marker @ x # post) = Some h"
    by blast
  obtain c cs where "marker @ x # post = c # cs"
    by (cases "marker @ x # post") (auto simp: marker_def)
  with h show ?case by simp
next
  case (Cons p ps)
  then show ?case by (cases "matchAt (p # ps @ marker @ x # post)") auto
qed

lemma hasSheetId_iff: "hasSheetId url \<longleftrightarrow> (\<exists>x. isIdChar x \<and> sublist (marker @ [x]) url)"
  by (auto simp: hasSheetId_def list_ex_iff isIdChar_def)

lemma extractSheetId_empty_iff: "extractSheetId url = [] \<longleftrightarrow> \<not> hasSheetId url"
proof
  assume e: "extractSheetId url = []"
  show "\<not> hasSheetId url"
  proof
    assume "hasSheetId url"
    then obtain x pre post where "isIdChar x" "url = pre @ (marker @ [x]) @ post"
      unfolding hasSheetId_iff sublist_def by blast
    then obtain h where h: "urlMatch url = Some h"
      using urlMatch_Some [of x pre post] by auto
    with urlMatch_nonempty have "h \<noteq> []" by blast
    with h e show False by (simp add: extractSheetId_def)
  qed
next
  assume n: "\<not> hasSheetId url"
  have "urlMatch url = None"
  proof (cases "urlMatch url")
    case None
    then show ?thesis .
  next
    case (Some g)
    from urlMatch_sublist [OF this] n show ?thesis by (simp add: hasSheetId_iff)
  qed
  then show "extractSheetId url = []" by (simp add: extractSheetId_def)
qed

text \<open>
  C10. For a spreadsheet URL with no segment \<open>/spreadsheets/d/{id}\<close>, \<open>extractSheetId\<close>
  returns the empty string, it does not fail, and the constructor builds the client with
  an empty sheet identifier.
\<close>

theorem extractSheetId_without_segment:
  assumes "\<not> hasSheetId url"
  shows "extractSheetId url = []
    \<and> sheetId (constructor (localSecrets\<lparr>spreadsheetUrl := url\<rparr>)) = []"
  using assms by (simp add: extractSheetId_empty_iff constructor_def)

theorem extractSheetId_without_segment_witness:
  "\<not> hasSheetId ''https://docs.google.com/spreadsheet/d/1AbC-_9/edit''
   \<and> extractSheetId ''https://docs.google.com/spreadsheet/d/1AbC-_9/edit'' = []
   \<and> sheetId (constructor
        \<lparr> spreadsheetUrl = ''https://docs.google.com/spreadsheet/d/1AbC-_9/edit'',
          secretWorksheetNames = [''Sheet''], secretColumnMappings = [(''tripId'', ''A'')],
          secretServiceAccountJson = [], googleApiKey = ''key'' \<rparr>) = []"
proof -
  have h: "\<not> hasSheetId ''https://docs.google.com/spreadsheet/d/1AbC-_9/edit''"
    by (simp add: hasSheetId_def idChars_def marker_def sublist_Cons_right)
  from extractSheetId_without_segment [OF h,
      of "\<lparr> spreadsheetUrl = [], secretWorksheetNames = [''Sheet''],
            secretColumnMappings = [(''tripId'', ''A'')],
            secretServiceAccountJson = [], googleApiKey = ''key'' \<rparr>"]
  show ?thesis using h by simp
qed

section \<open>Properties of the lookup\<close>

lemma findIndex_None: "findIndex p xs = None \<longleftrightarrow> (\<forall>x\<in>set xs. \<not> p x)"
  by (induction xs) auto

lemma findIndex_Some:
  "findIndex p xs = Some i \<longleftrightarrow> (i < length xs \<and> p (xs ! i) \<and> (\<forall>j<i. \<not> p (xs ! j)))"
proof (induction xs arbitrary: i)
  case Nil
  then show ?case by simp
next
  case (Cons x xs)
  show ?case
  proof (cases "p x")
    case True
    then show ?thesis by (cases i) auto
  next
    case False
    show ?thesis
    proof (cases i)
      case 0
      with False show ?thesis by auto
    next
      case (Suc k)
      have "(\<forall>j<Suc k. \<not> p ((x # xs) ! j)) \<longleftrightarrow> (\<forall>j<k. \<not> p (xs ! j))"
        using False by (auto simp: less_Suc_eq_0_disj)
      with False Suc Cons.IH [of k] show ?thesis by auto
    qed
  qed
qed

lemma findRowByKey_None: "findRowByKey tripId colVals = None \<longleftrightarrow> tripId \<notin> set colVals"
  by (auto simp: findRowByKey_def findIndex_None)

lemma findRowByKey_Some:
  "findRowByKey tripId colVals = Some r \<longleftrightarrow>
     (2 \<le> r \<and> r - 2 < length colVals \<and> colVals ! (r - 2) = tripId
      \<and> (\<forall>j<r - 2. colVals ! j \<noteq> tripId))"
proof -
  have "findRowByKey tripId colVals = Some r \<longleftrightarrow>
          (\<exists>i. findIndex (\<lambda>v. v = tripId) colVals = Some i \<and> r = i + 2)"
    by (auto simp: findRowByKey_def)
  also have "\<dots> \<longleftrightarrow> (2 \<le> r \<and> findIndex (\<lambda>v. v = tripId) colVals = Some (r - 2))"
    by (metis add_diff_cancel_right' le_add2 le_add_diff_inverse2)
  finally show ?thesis by (simp add: findIndex_Some)
qed

section \<open>Properties of the record mapper\<close>

lemma decimal_digits: "decimal n \<noteq> [] \<and> list_all isDigit (decimal n)"
proof (induction n rule: decimal.induct)
  case (1 n)
  have d: "isDigit (digits ! k)" if "k < 10" for k
    unfolding isDigit_def using that by (intro nth_mem) (simp add: digits_def)
  show ?case
  proof (cases "n < 10")
    case True
    then show ?thesis using d [of n] by (simp add: decimal.simps [of n])
  next
    case False
    with 1 have "list_all isDigit (decimal (n div 10))" by simp
    with False show ?thesis using d [of "n mod 10"] by (simp add: decimal.simps [of n])
  qed
qed

lemma rowStep_written:
  "rowStep now lead row (key, col) =
     (case written now lead key of Some v \<Rightarrow> setCell row (columnToIndex col) v | None \<Rightarrow> row)"
  by (simp add: rowStep_def written_def)

lemma length_setCell: "length (setCell row i v) = length row"
  by (simp add: setCell_def)

lemma length_rowStep: "length (rowStep now lead row e) = length row"
  by (cases e) (simp add: rowStep_written length_setCell split: option.splits)

lemma length_foldl_rowStep: "length (foldl (rowStep now lead) row es) = length row"
  by (induction es arbitrary: row) (simp_all add: length_rowStep)

lemma cellAt_setCell:
  "cellAt (setCell row j v) i = (if i = j \<and> 0 \<le> i \<and> i < int (length row) then v else cellAt row i)"
  by (auto simp: cellAt_def setCell_def nth_list_update)

lemma cellAt_rowStep:
  assumes "0 \<le> i" "i < int (length row)"
  shows "cellAt (rowStep now lead row (k, c)) i =
     (if columnToIndex c = i then (case written now lead k of Some v \<Rightarrow> v | None \<Rightarrow> cellAt row i)
      else cellAt row i)"
  using assms by (auto simp: rowStep_written cellAt_setCell split: option.splits)

lemma cellAt_foldl_rowStep:
  assumes "0 \<le> i" "i < int (length row)"
    and "\<forall>(k, c) \<in> set es. columnToIndex c = i \<longrightarrow> written now lead k = written now lead key"
  shows "cellAt (foldl (rowStep now lead) row es) i =
     (if \<exists>(k, c) \<in> set es. columnToIndex c = i
      then (case written now lead key of Some v \<Rightarrow> v | None \<Rightarrow> cellAt row i)
      else cellAt row i)"
  using assms
proof (induction es arbitrary: row)
  case Nil
  then show ?case by simp
next
  case (Cons e es)
  obtain k c where e: "e = (k, c)" by (cases e)
  let ?row = "rowStep now lead row (k, c)"
  have len: "i < int (length ?row)" using Cons.prems(2) by (simp add: length_rowStep)
  have rest: "\<forall>(k, c) \<in> set es. columnToIndex c = i \<longrightarrow> written now lead k = written now lead key"
    using Cons.prems(3) by simp
  have ih: "cellAt (foldl (rowStep now lead) ?row es) i =
     (if \<exists>(k, c) \<in> set es. columnToIndex c = i
      then (case written now lead key of Some v \<Rightarrow> v | None \<Rightarrow> cellAt ?row i)
      else cellAt ?row i)"
    by (rule Cons.IH [OF Cons.prems(1) len rest])
  have here: "cellAt ?row i =
     (if columnToIndex c = i then (case written now lead key of Some v \<Rightarrow> v | None \<Rightarrow> cellAt row i)
      else cellAt row i)"
  proof (cases "columnToIndex c = i")
    case True
    with Cons.prems(3) e have "written now lead k = written now lead key" by simp
    with True show ?thesis using cellAt_rowStep [OF Cons.prems(1,2)] by simp
  next
    case False
    then show ?thesis using cellAt_rowStep [OF Cons.prems(1,2)] by simp
  qed
  show ?case unfolding e foldl_Cons ih here
    by (auto split: option.splits)
qed

lemma foldl_max_ge: "(a::int) \<le> foldl max a xs \<and> (\<forall>x\<in>set xs. x \<le> foldl max a xs)"
proof (induction xs arbitrary: a)
  case Nil
  then show ?case by simp
next
  case (Cons x xs)
  have "max a x \<le> foldl max (max a x) xs" "\<forall>y\<in>set xs. y \<le> foldl max (max a x) xs"
    using Cons.IH [of "max a x"] by auto
  then show ?case by auto
qed

lemma maxCol_ge:
  assumes "(k, c) \<in> set cm"
  shows "\<exists>m. maxCol cm = Some m \<and> columnToIndex c \<le> m"
proof -
  let ?is = "map (\<lambda>(key, col). columnToIndex col) cm"
  have mem: "columnToIndex c \<in> set ?is" using assms by force
  then obtain i rest where split: "?is = i # rest" by (cases ?is) auto
  then have m: "maxCol cm = Some (foldl max i rest)" by (simp add: maxCol_def)
  from mem split have "columnToIndex c = i \<or> columnToIndex c \<in> set rest" by simp
  then have "columnToIndex c \<le> foldl max i rest" using foldl_max_ge [of i rest] by auto
  with m show ?thesis by simp
qed

lemma recordToRow_cell:
  assumes row: "recordToRow now lead cm = Inr row"
    and mem: "(key, col) \<in> set cm"
    and nonneg: "0 \<le> columnToIndex col"
    and own: "\<forall>(k, c) \<in> set cm. k \<noteq> key \<longrightarrow> columnToIndex c \<noteq> columnToIndex col"
  shows "cellAt row (columnToIndex col) = (case written now lead key of Some v \<Rightarrow> v | None \<Rightarrow> [])"
proof -
  from maxCol_ge [OF mem] obtain m where m: "maxCol cm = Some m" "columnToIndex col \<le> m" by blast
  from row m have ok: "\<not> (m + 1 < 0 \<or> 4294967295 < m + 1)"
    by (auto simp: recordToRow_def newArray_def split: if_splits)
  let ?init = "replicate (nat (m + 1)) ([]::string)"
  from row m ok have r: "row = foldl (rowStep now lead) ?init cm"
    by (auto simp: recordToRow_def newArray_def)
  have len: "columnToIndex col < int (length ?init)" using m nonneg by simp
  have w: "\<forall>(k, c) \<in> set cm. columnToIndex c = columnToIndex col \<longrightarrow> written now lead k = written now lead key"
    using own by auto
  have "nat (columnToIndex col) < nat (m + 1)" using m nonneg by simp
  then have "?init ! nat (columnToIndex col) = []" by (rule nth_replicate)
  then have init: "cellAt ?init (columnToIndex col) = []"
    by (simp add: cellAt_def)
  have ex: "\<exists>(k, c) \<in> set cm. columnToIndex c = columnToIndex col" using mem by auto
  show ?thesis
    unfolding r cellAt_foldl_rowStep [OF nonneg len w] init using ex by (simp split: option.splits)
qed

lemma map_of_rowToRecord:
  assumes "distinct (map fst cm)" "(key, col) \<in> set cm"
  shows "map_of (rowToRecord cm row) key = Some (cellAt row (columnToIndex col))"
proof -
  have "map_of (rowToRecord cm row) = map_option (\<lambda>c. cellAt row (columnToIndex c)) \<circ> map_of cm"
    unfolding rowToRecord_def by (induction cm) (auto simp: fun_eq_iff)
  moreover have "map_of cm key = Some col" using assms by simp
  ultimately show ?thesis by simp
qed

lemma stringIncludes_append: "stringIncludes text p \<Longrightarrow> stringIncludes (pre @ text) p"
  by (induction pre) auto

section \<open>Properties of the access client\<close>

lemma requests_simps:
  "requests [] = []"
  "requests (Fetch r # fx) = r # requests fx"
  "requests (Alert a # fx) = requests fx"
  "requests (ConsoleWarn a # fx) = requests fx"
  "requests (ConsoleError a # fx) = requests fx"
  "requests (ConsoleLog a # fx) = requests fx"
  "requests (fx @ fx') = requests fx @ requests fx'"
  by (simp_all add: requests_def)

lemma getAccessToken_Inr:
  "snd (getAccessToken c w) = Inr token \<Longrightarrow> getAccessToken c w = ([Fetch TokenExchange], Inr token)"
  by (auto simp: getAccessToken_def split: if_splits option.splits response.splits json.splits)

lemma getAccessToken_requests:
  "requests (fst (getAccessToken c w)) = [] \<or> requests (fst (getAccessToken c w)) = [TokenExchange]"
  by (auto simp: getAccessToken_def requests_simps split: if_splits option.splits)

lemma readTripIds_fst:
  "fst (readTripIds c w token) = [Fetch (GetColumn (sheetId c) (keyRange c) token)]"
  by (simp add: readTripIds_def)

lemma batchUpdate_requests:
  "requests (fst (batchUpdate c w token data)) = [BatchUpdate (sheetId c) token data]"
  by (simp add: batchUpdate_def requests_simps split: response.splits json.splits)

lemma batchUpdate_first:
  "\<exists>fx. fst (batchUpdate c w token data) = Fetch (BatchUpdate (sheetId c) token data) # fx \<and> requests fx = []"
  by (simp add: batchUpdate_def requests_simps split: response.splits json.splits)

lemma updateLeadTry_lookup:
  assumes "snd (getAccessToken c w) = Inr token" "snd (readTripIds c w token) = Inr colVals"
  shows "updateLeadTry c w tripId updates =
     (case findRowByKey tripId colVals of
        None \<Rightarrow>
          ([Fetch TokenExchange, Fetch (GetColumn (sheetId c) (keyRange c) token),
            Alert (''Trip ID '' @ tripId @ '' not found in Google Sheet.'')],
           Inl (Error (''Trip ID '' @ tripId @ '' not found.'')))
      | Some rowNumber \<Rightarrow>
          if cellWrites (worksheetName c) (columnMappings c) rowNumber updates = []
          then ([Fetch TokenExchange, Fetch (GetColumn (sheetId c) (keyRange c) token),
                 ConsoleWarn ''No valid fields to update for lead:''], Inr ())
          else ([Fetch TokenExchange, Fetch (GetColumn (sheetId c) (keyRange c) token)]
                  @ fst (batchUpdate c w token
                      (cellWrites (worksheetName c) (columnMappings c) rowNumber updates)),
                snd (batchUpdate c w token
                      (cellWrites (worksheetName c) (columnMappings c) rowNumber updates))))"
proof -
  have r: "readTripIds c w token = ([Fetch (GetColumn (sheetId c) (keyRange c) token)], Inr colVals)"
    using assms(2) readTripIds_fst [of c w token] by (cases "readTripIds c w token") simp
  show ?thesis
    by (simp add: updateLeadTry_def getAccessToken_Inr [OF assms(1)] andThen_def r
          split: option.splits prod.splits)
qed

lemma updateLead_returns: "snd (updateLead c w tripId updates) = Inr ()"
  by (simp add: updateLead_def split: prod.splits sum.splits)

lemma updateLead_requests:
  "requests (fst (updateLead c w tripId updates)) = requests (fst (updateLeadTry c w tripId updates))"
  by (simp add: updateLead_def requests_simps split: prod.splits sum.splits)

lemma updateLeadTry_no_batch:
  assumes "\<forall>rowNumber. cellWrites (worksheetName c) (columnMappings c) rowNumber updates = []"
  shows "\<not> list_ex isBatchUpdate (requests (fst (updateLeadTry c w tripId updates)))"
proof (cases "getAccessToken c w")
  case (Pair fx1 r1)
  have t: "\<not> list_ex isBatchUpdate (requests fx1)"
    using getAccessToken_requests [of c w] Pair by auto
  show ?thesis
  proof (cases r1)
    case (Inl err)
    with Pair t show ?thesis by (simp add: updateLeadTry_def andThen_def)
  next
    case (Inr token)
    with Pair have tok: "snd (getAccessToken c w) = Inr token" by simp
    show ?thesis
    proof (cases "snd (readTripIds c w token)")
      case (Inl err)
      then have "readTripIds c w token = ([Fetch (GetColumn (sheetId c) (keyRange c) token)], Inl err)"
        using readTripIds_fst [of c w token] by (cases "readTripIds c w token") simp
      then show ?thesis
        by (simp add: updateLeadTry_def getAccessToken_Inr [OF tok] andThen_def requests_simps)
    next
      case (Inr colVals)
      show ?thesis
        unfolding updateLeadTry_lookup [OF tok Inr]
        using assms by (simp add: requests_simps split: option.splits)
    qed
  qed
qed

lemma isWritten_unmapped:
  assumes "\<forall>(key, val) \<in> set updates. val = None \<or> map_of cm key = None"
  shows "cellWrites ws cm rowNumber updates = []"
proof -
  have "\<not> isWritten cm e" if "e \<in> set updates" for e
    using assms that by (cases e) (auto simp: isWritten_def columnOf_def)
  then have "filter (isWritten cm) updates = []" by (simp add: filter_empty_conv)
  then show ?thesis by (simp add: cellWrites_def)
qed

lemma appendLead_sent:
  assumes "snd (getAccessToken c w) = Inr token"
    "recordToRow (dateNow w) lead (columnMappings c) = Inr row"
  shows "appendLead c w lead =
    ([Fetch TokenExchange, Fetch (AppendValues (sheetId c) (worksheetName c) token row)],
     case appendResponse w of
       NetworkError m \<Rightarrow> Inl (Thrown ''TypeError'' m)
     | Response ok statusText text \<Rightarrow>
         if \<not> ok then Inl (Error (''Failed to append lead: '' @ text)) else Inr ())"
  by (simp add: appendLead_def getAccessToken_Inr [OF assms(1)] andThen_def assms(2))

lemma example_token: "snd (getAccessToken exampleClient exampleWorld) = Inr ''token''"
  by (simp add: getAccessToken_def exampleClient_def exampleWorld_def)

lemma example_column:
  "snd (readTripIds exampleClient exampleWorld token) = Inr [''T0'', ''T1'']"
  by (simp add: readTripIds_def exampleWorld_def)

lemma example_keyRange: "keyRange exampleClient = ''Sheet!A2:A10000''"
  by (simp add: keyRange_def tripIdCol_def columnOf_def worksheetName_def exampleClient_def)

lemma decimal_3: "decimal 3 = ''3''"
  by (simp add: decimal.simps [of 3] digits_def)

text \<open>
  C1, as the code has it. With the mapping \<open>{tripId: "A", status: "B"}\<close>, the worksheet
  \<open>Sheet\<close>, the update \<open>{tripId: "T1", status: "Hot Leads"}\<close> and \<open>T1\<close> found in
  physical row 3, \<open>updateLead\<close> sends one batch write, and it holds two pairs: cell
  \<open>A3\<close> with \<open>T1\<close> and cell \<open>B3\<close> with \<open>Hot Leads\<close>. The \<open>tripId\<close> entry
  of the update has a value and a column, so it is written like any other.
\<close>

theorem updateLead_rewrites_key:
  assumes "columnMappings c = [(''tripId'', ''A''), (''status'', ''B'')]"
    and "worksheetName c = ''Sheet''"
    and "snd (getAccessToken c w) = Inr token"
    and "snd (readTripIds c w token) = Inr colVals"
    and "findRowByKey ''T1'' colVals = Some 3"
  shows "requests (fst (updateLead c w ''T1''
           [(''tripId'', Some ''T1''), (''status'', Some ''Hot Leads'')])) =
         [TokenExchange, GetColumn (sheetId c) (keyRange c) token,
          BatchUpdate (sheetId c) token [(''Sheet!A3'', ''T1''), (''Sheet!B3'', ''Hot Leads'')]]"
proof -
  have cw: "cellWrites (worksheetName c) (columnMappings c) 3
              [(''tripId'', Some ''T1''), (''status'', Some ''Hot Leads'')] =
            [(''Sheet!A3'', ''T1''), (''Sheet!B3'', ''Hot Leads'')]"
    by (simp add: assms(1,2) cellWrites_def isWritten_def cellWrite_def columnOf_def decimal_3)
  show ?thesis
    unfolding updateLead_requests updateLeadTry_lookup [OF assms(3,4)] assms(5)
    by (simp add: cw requests_simps batchUpdate_requests)
qed

theorem updateLead_rewrites_key_witness:
  "columnMappings exampleClient = [(''tripId'', ''A''), (''status'', ''B'')]
   \<and> worksheetName exampleClient = ''Sheet''
   \<and> snd (getAccessToken exampleClient exampleWorld) = Inr ''token''
   \<and> snd (readTripIds exampleClient exampleWorld ''token'') = Inr [''T0'', ''T1'']
   \<and> findRowByKey ''T1'' [''T0'', ''T1''] = Some 3
   \<and> requests (fst (updateLead exampleClient exampleWorld ''T1''
           [(''tripId'', Some ''T1''), (''status'', Some ''Hot Leads'')])) =
         [TokenExchange, GetColumn (sheetId exampleClient) (keyRange exampleClient) ''token'',
          BatchUpdate (sheetId exampleClient) ''token''
            [(''Sheet!A3'', ''T1''), (''Sheet!B3'', ''Hot Leads'')]]"
proof -
  have h1: "columnMappings exampleClient = [(''tripId'', ''A''), (''status'', ''B'')]"
    and h2: "worksheetName exampleClient = ''Sheet''"
    by (simp_all add: exampleClient_def worksheetName_def)
  have h5: "findRowByKey ''T1'' [''T0'', ''T1''] = Some 3"
    by (simp add: findRowByKey_def)
  from updateLead_rewrites_key [OF h1 h2 example_token example_column h5]
  show ?thesis using h1 h2 example_token example_column h5 by blast
qed

text \<open>
  On the example client the batch write is not the single pair for \<open>B3\<close>: the pair
  for \<open>A3\<close> comes first.
\<close>

theorem updateLead_single_write_counterexample:
  "findRowByKey ''T1'' [''T0'', ''T1''] = Some 3
   \<and> requests (fst (updateLead exampleClient exampleWorld ''T1''
           [(''tripId'', Some ''T1''), (''status'', Some ''Hot Leads'')])) =
         [TokenExchange, GetColumn ''1AbC-_9'' ''Sheet!A2:A10000'' ''token'',
          BatchUpdate ''1AbC-_9'' ''token''
            [(''Sheet!A3'', ''T1''), (''Sheet!B3'', ''Hot Leads'')]]
   \<and> [(''Sheet!A3'', ''T1''), (''Sheet!B3'', ''Hot Leads'')] \<noteq> [(''Sheet!B3'', ''Hot Leads'')]"
proof -
  have cw: "cellWrites ''Sheet'' [(''tripId'', ''A''), (''status'', ''B'')] 3
              [(''tripId'', Some ''T1''), (''status'', Some ''Hot Leads'')] =
            [(''Sheet!A3'', ''T1''), (''Sheet!B3'', ''Hot Leads'')]"
    by (simp add: cellWrites_def isWritten_def cellWrite_def columnOf_def decimal_3)
  have f: "findRowByKey ''T1'' [''T0'', ''T1''] = Some 3"
    by (simp add: findRowByKey_def)
  have c: "worksheetName exampleClient = ''Sheet''"
    "columnMappings exampleClient = [(''tripId'', ''A''), (''status'', ''B'')]"
    "sheetId exampleClient = ''1AbC-_9''"
    by (simp_all add: exampleClient_def worksheetName_def)
  have "requests (fst (updateLead exampleClient exampleWorld ''T1''
           [(''tripId'', Some ''T1''), (''status'', Some ''Hot Leads'')])) =
         [TokenExchange, GetColumn ''1AbC-_9'' ''Sheet!A2:A10000'' ''token'',
          BatchUpdate ''1AbC-_9'' ''token''
            [(''Sheet!A3'', ''T1''), (''Sheet!B3'', ''Hot Leads'')]]"
    unfolding updateLead_requests updateLeadTry_lookup [OF example_token example_column] f
    by (simp add: c cw requests_simps batchUpdate_requests example_keyRange)
  with f show ?thesis by simp
qed

text \<open>
  C3, as the code has it. When no key of \<open>updates\<close> has both a value and an entry in the
  column mapping, \<open>updateLead\<close> builds no cell write and sends no batch write, whatever
  the provider answers. The token exchange and the read of the key column come before
  the cell writes are built; when both succeed and the trip identifier is in the column,
  those two requests are all that is sent, a warning is logged, and the call returns.
\<close>

theorem updateLead_nothing_to_write:
  assumes "\<forall>(key, val) \<in> set updates. val = None \<or> map_of (columnMappings c) key = None"
  shows "cellWrites (worksheetName c) (columnMappings c) rowNumber updates = []
    \<and> \<not> list_ex isBatchUpdate (requests (fst (updateLead c w tripId updates)))
    \<and> (snd (getAccessToken c w) = Inr token \<and> snd (readTripIds c w token) = Inr colVals
         \<and> tripId \<in> set colVals \<longrightarrow>
       updateLead c w tripId updates =
         ([Fetch TokenExchange, Fetch (GetColumn (sheetId c) (keyRange c) token),
           ConsoleWarn ''No valid fields to update for lead:''], Inr ()))"
proof -
  have e: "cellWrites (worksheetName c) (columnMappings c) r updates = []" for r
    using assms by (rule isWritten_unmapped)
  have "updateLead c w tripId updates =
         ([Fetch TokenExchange, Fetch (GetColumn (sheetId c) (keyRange c) token),
           ConsoleWarn ''No valid fields to update for lead:''], Inr ())"
    if tok: "snd (getAccessToken c w) = Inr token"
      and col: "snd (readTripIds c w token) = Inr colVals" and mem: "tripId \<in> set colVals"
  proof -
    from mem obtain r where "findRowByKey tripId colVals = Some r"
      using findRowByKey_None [of tripId colVals] by (cases "findRowByKey tripId colVals") auto
    then show ?thesis
      by (simp add: updateLead_def updateLeadTry_lookup [OF tok col] e)
  qed
  moreover have "\<not> list_ex isBatchUpdate (requests (fst (updateLead c w tripId updates)))"
    unfolding updateLead_requests using e by (intro updateLeadTry_no_batch) simp
  ultimately show ?thesis using e by blast
qed

theorem updateLead_nothing_to_write_witness:
  "map_of (columnMappings exampleClient) ''notes'' = None
   \<and> snd (getAccessToken exampleClient exampleWorld) = Inr ''token''
   \<and> snd (readTripIds exampleClient exampleWorld ''token'') = Inr [''T0'', ''T1'']
   \<and> ''T1'' \<in> set [''T0'', ''T1'']
   \<and> cellWrites (worksheetName exampleClient) (columnMappings exampleClient) 3
        [(''notes'', Some ''call back'')] = []
   \<and> updateLead exampleClient exampleWorld ''T1'' [(''notes'', Some ''call back'')] =
         ([Fetch TokenExchange,
           Fetch (GetColumn (sheetId exampleClient) (keyRange exampleClient) ''token''),
           ConsoleWarn ''No valid fields to update for lead:''], Inr ())"
proof -
  have n: "map_of (columnMappings exampleClient) ''notes'' = None"
    by (simp add: exampleClient_def)
  then have h: "\<forall>(key, val) \<in> set [(''notes'', Some ''call back'')].
      val = None \<or> map_of (columnMappings exampleClient) key = None"
    by simp
  have m: "''T1'' \<in> set [''T0'', ''T1'']" by simp
  from updateLead_nothing_to_write [OF h, of 3 exampleWorld "''T1''" "''token''" "[''T0'', ''T1'']"]
  show ?thesis using n m example_token example_column by blast
qed

text \<open>
  On the example client an update of the unmapped field \<open>notes\<close> does make network
  calls: it sends the token exchange and the read of the key column.
\<close>

theorem updateLead_no_network_counterexample:
  "map_of (columnMappings exampleClient) ''notes'' = None
   \<and> requests (fst (updateLead exampleClient exampleWorld ''T1'' [(''notes'', Some ''call back'')])) =
       [TokenExchange, GetColumn ''1AbC-_9'' ''Sheet!A2:A10000'' ''token'']"
proof -
  have f: "findRowByKey ''T1'' [''T0'', ''T1''] = Some 3"
    by (simp add: findRowByKey_def)
  have n: "map_of (columnMappings exampleClient) ''notes'' = None"
    by (simp add: exampleClient_def)
  then have cw: "cellWrites (worksheetName exampleClient) (columnMappings exampleClient) 3
      [(''notes'', Some ''call back'')] = []"
    by (simp add: cellWrites_def isWritten_def columnOf_def)
  have "requests (fst (updateLead exampleClient exampleWorld ''T1'' [(''notes'', Some ''call back'')])) =
       [TokenExchange, GetColumn ''1AbC-_9'' ''Sheet!A2:A10000'' ''token'']"
    unfolding updateLead_requests updateLeadTry_lookup [OF example_token example_column] f
    by (simp add: cw requests_simps example_keyRange) (simp add: exampleClient_def)
  with n show ?thesis by simp
qed

section \<open>The lookup inside an update, and fetching\<close>

text \<open>
  C5. The lookup scans the key column from the top for the first cell equal to the trip
  identifier, compared as strings with case, and gives the physical row, the index of the
  match plus 2. On \<open>["T1", "T2", "T3"]\<close> the search for \<open>T2\<close> gives row 3 and the
  search for \<open>T9\<close> finds nothing; when nothing is found \<open>updateLead\<close> stops after
  the read of the key column, with alerts and no batch write.
\<close>

theorem findRowByKey_first_match:
  "findRowByKey ''T2'' [''T1'', ''T2'', ''T3''] = Some 3
   \<and> findRowByKey ''T9'' [''T1'', ''T2'', ''T3''] = None
   \<and> findRowByKey ''t2'' [''T1'', ''T2'', ''T3''] = None
   \<and> (findRowByKey tripId colVals = Some r \<longleftrightarrow>
        2 \<le> r \<and> r - 2 < length colVals \<and> colVals ! (r - 2) = tripId
        \<and> (\<forall>j<r - 2. colVals ! j \<noteq> tripId))
   \<and> (findRowByKey tripId colVals = None \<longleftrightarrow> tripId \<notin> set colVals)
   \<and> (snd (getAccessToken c w) = Inr token \<and> snd (readTripIds c w token) = Inr colVals
        \<and> findRowByKey tripId colVals = None \<longrightarrow>
      updateLead c w tripId updates =
        ([Fetch TokenExchange, Fetch (GetColumn (sheetId c) (keyRange c) token),
          Alert (''Trip ID '' @ tripId @ '' not found in Google Sheet.''),
          ConsoleError ''UpdateLead error:'',
          Alert (''Error updating lead: '' @ ''Trip ID '' @ tripId @ '' not found.'')],
         Inr ()))"
proof -
  have "findRowByKey ''T2'' [''T1'', ''T2'', ''T3''] = Some 3"
    "findRowByKey ''T9'' [''T1'', ''T2'', ''T3''] = None"
    "findRowByKey ''t2'' [''T1'', ''T2'', ''T3''] = None"
    by (simp_all add: findRowByKey_def)
  moreover have "updateLead c w tripId updates =
        ([Fetch TokenExchange, Fetch (GetColumn (sheetId c) (keyRange c) token),
          Alert (''Trip ID '' @ tripId @ '' not found in Google Sheet.''),
          ConsoleError ''UpdateLead error:'',
          Alert (''Error updating lead: '' @ ''Trip ID '' @ tripId @ '' not found.'')],
         Inr ())"
    if "snd (getAccessToken c w) = Inr token" "snd (readTripIds c w token) = Inr colVals"
      "findRowByKey tripId colVals = None"
    using that by (simp add: updateLead_def updateLeadTry_lookup)
  ultimately show ?thesis
    using findRowByKey_Some [of tripId colVals r] findRowByKey_None [of tripId colVals]
    by blast
qed

theorem findRowByKey_first_match_witness:
  "(2 \<le> (3::nat) \<and> 3 - 2 < length [''T1'', ''T2'', ''T3'']
      \<and> [''T1'', ''T2'', ''T3''] ! (3 - 2) = ''T2''
      \<and> [''T1'', ''T2'', ''T3''] ! 0 \<noteq> ''T2'')
   \<and> findRowByKey ''T2'' [''T1'', ''T2'', ''T3''] = Some 3
   \<and> snd (getAccessToken exampleClient exampleWorld) = Inr ''token''
   \<and> snd (readTripIds exampleClient exampleWorld ''token'') = Inr [''T0'', ''T1'']
   \<and> ''T9'' \<notin> set [''T0'', ''T1'']
   \<and> findRowByKey ''T9'' [''T0'', ''T1''] = None
   \<and> updateLead exampleClient exampleWorld ''T9'' [(''status'', Some ''Hot Leads'')] =
        ([Fetch TokenExchange,
          Fetch (GetColumn (sheetId exampleClient) (keyRange exampleClient) ''token''),
          Alert (''Trip ID '' @ ''T9'' @ '' not found in Google Sheet.''),
          ConsoleError ''UpdateLead error:'',
          Alert (''Error updating lead: '' @ ''Trip ID '' @ ''T9'' @ '' not found.'')],
         Inr ())"
proof -
  have a0: "[''T1'', ''T2'', ''T3''] ! 0 \<noteq> ''T2''" by simp
  have a: "2 \<le> (3::nat) \<and> 3 - 2 < length [''T1'', ''T2'', ''T3'']
      \<and> [''T1'', ''T2'', ''T3''] ! (3 - 2) = ''T2''
      \<and> (\<forall>j<(3::nat) - 2. [''T1'', ''T2'', ''T3''] ! j \<noteq> ''T2'')"
    by simp
  have b: "''T9'' \<notin> set [''T0'', ''T1'']" by simp
  from findRowByKey_first_match [of "''T2''" "[''T1'', ''T2'', ''T3'']" 3] a
  have 1: "findRowByKey ''T2'' [''T1'', ''T2'', ''T3''] = Some 3" by blast
  from findRowByKey_first_match
    [of "''T9''" "[''T0'', ''T1'']" 0 exampleClient exampleWorld "''token''"
        "[(''status'', Some ''Hot Leads'')]"]
    b example_token example_column
  have 2: "findRowByKey ''T9'' [''T0'', ''T1''] = None
    \<and> updateLead exampleClient exampleWorld ''T9'' [(''status'', Some ''Hot Leads'')] =
        ([Fetch TokenExchange,
          Fetch (GetColumn (sheetId exampleClient) (keyRange exampleClient) ''token''),
          Alert (''Trip ID '' @ ''T9'' @ '' not found in Google Sheet.''),
          ConsoleError ''UpdateLead error:'',
          Alert (''Error updating lead: '' @ ''Trip ID '' @ ''T9'' @ '' not found.'')],
         Inr ())"
    by blast
  from a a0 b 1 2 example_token example_column show ?thesis by blast
qed

text \<open>
  C9. When the fetch succeeds and the response body has no \<open>values\<close> field,
  \<open>fetchLeads\<close> returns the empty list of leads, not an error.
\<close>

theorem fetchLeads_empty_range:
  assumes "valuesResponse w = Response True statusText (Json data)" "values data = None"
  shows "fetchLeads c w =
    ([Fetch (GetValues (sheetId c) (worksheetName c @ ''!A2:AZ10000'') (apiKey c))], Inr [])"
  using assms by (simp add: fetchLeads_def)

theorem fetchLeads_empty_range_witness:
  "valuesResponse (exampleWorld\<lparr>valuesResponse :=
       Response True ''OK'' (Json \<lparr>stringified = ''{}'', values = None\<rparr>)\<rparr>) =
     Response True ''OK'' (Json \<lparr>stringified = ''{}'', values = None\<rparr>)
   \<and> values \<lparr>stringified = ''{}'', values = None\<rparr> = None
   \<and> fetchLeads exampleClient (exampleWorld\<lparr>valuesResponse :=
       Response True ''OK'' (Json \<lparr>stringified = ''{}'', values = None\<rparr>)\<rparr>) =
    ([Fetch (GetValues (sheetId exampleClient) (worksheetName exampleClient @ ''!A2:AZ10000'')
        (apiKey exampleClient))], Inr [])"
proof -
  have h1: "valuesResponse (exampleWorld\<lparr>valuesResponse :=
       Response True ''OK'' (Json \<lparr>stringified = ''{}'', values = None\<rparr>)\<rparr>) =
     Response True ''OK'' (Json \<lparr>stringified = ''{}'', values = None\<rparr>)"
    by simp
  have h2: "values \<lparr>stringified = ''{}'', values = None\<rparr> = None" by simp
  from fetchLeads_empty_range [OF h1 h2, of exampleClient] h1 h2 show ?thesis by blast
qed

section \<open>Failures\<close>

lemma updateLead_alert:
  assumes "snd (updateLeadTry c w tripId updates) = Inl err"
  shows "last (fst (updateLead c w tripId updates)) =
     Alert (''Error updating lead: '' @ (if message err \<noteq> [] then message err else errorName err))"
  using assms by (cases "updateLeadTry c w tripId updates") (simp add: updateLead_def)

lemma readTripIds_rejected:
  assumes "valuesResponse w = Response False statusText (Json dataFind)"
  shows "readTripIds c w token =
    ([Fetch (GetColumn (sheetId c) (keyRange c) token)],
     Inl (Error (''Failed to read Trip IDs: '' @ stringified dataFind)))"
  using assms by (simp add: readTripIds_def)

lemma batchUpdate_rejected:
  assumes "batchResponse w = Response False statusText (Json (Some m))" "m \<noteq> []"
  shows "batchUpdate c w token data =
    ([Fetch (BatchUpdate (sheetId c) token data), ConsoleError ''Google Sheet update failed:'',
      Alert (''Lead update failed: '' @ m)], Inr ())"
  using assms by (simp add: batchUpdate_def)

lemma decimal_example: "decimal 1700000000000 = ''1700000000000''"
  by (simp add: decimal.simps digits_def)

lemma replicate_2: "replicate 2 x = [x, x]"
  by (simp add: numeral_2_eq_2)

lemma protected_token: "snd (getAccessToken exampleClient protectedWorld) = Inr ''token''"
  by (simp add: getAccessToken_def exampleClient_def exampleWorld_def protectedWorld_def)

lemma refusing_token: "snd (getAccessToken exampleClient refusingWorld) = Inr ''token''"
  by (simp add: getAccessToken_def exampleClient_def exampleWorld_def refusingWorld_def)

lemma protected_column:
  "snd (readTripIds exampleClient protectedWorld token) = Inr [''T0'', ''T1'']"
  by (simp add: readTripIds_def exampleWorld_def protectedWorld_def)

lemma example_status_row:
  "recordToRow 1700000000000 [(''status'', Some ''Unfollowed'')]
     [(''tripId'', ''A''), (''status'', ''B'')] = Inr [''T1700000000000'', ''Unfollowed'']"
  by (simp add: recordToRow_def maxCol_def newArray_def columnToIndex_def columnStep_def
        charCode_def rowStep_def setCell_def tripIdOrNew_def field_def
        decimal_example replicate_2)

lemma tokenless_token:
  "snd (getAccessToken exampleClient tokenlessWorld) = Inl (Error ''Failed to get access token.'')"
  by (simp add: getAccessToken_def exampleClient_def exampleWorld_def tokenlessWorld_def)

text \<open>
  C2, as the code has it. A failure inside \<open>appendLead\<close> reaches the caller: a failed
  token exchange as it is, a refused append as an error whose message is
  \<open>Failed to append lead: \<close> followed by the provider's text. A refused read in
  \<open>fetchLeads\<close> reaches the caller with the fixed message \<open>Failed to fetch leads.\<close>
  \<open>updateLead\<close> always returns normally: any error raised in its body (a refused read
  of the key column, with the provider's payload in its message, or a trip identifier that
  is not found) ends in an alert that shows the error's message, and a refused batch write
  ends in an alert that shows the provider's error message.
\<close>

theorem failures_reach_caller_or_alert:
  "(snd (getAccessToken c w) = Inl err \<longrightarrow> snd (appendLead c w lead) = Inl err)
   \<and> (snd (getAccessToken c w) = Inr token
        \<and> recordToRow (dateNow w) lead (columnMappings c) = Inr row
        \<and> appendResponse w = Response False statusText text \<longrightarrow>
      snd (appendLead c w lead) = Inl (Error (''Failed to append lead: '' @ text)))
   \<and> (valuesResponse w = Response False statusText body \<longrightarrow>
      snd (fetchLeads c w) = Inl (Error ''Failed to fetch leads.''))
   \<and> snd (updateLead c w tripId updates) = Inr ()
   \<and> (snd (updateLeadTry c w tripId updates) = Inl err \<longrightarrow>
      last (fst (updateLead c w tripId updates)) =
        Alert (''Error updating lead: '' @
          (if message err \<noteq> [] then message err else errorName err)))
   \<and> (snd (getAccessToken c w) = Inr token
        \<and> valuesResponse w = Response False statusText (Json dataFind) \<longrightarrow>
      snd (updateLeadTry c w tripId updates) =
        Inl (Error (''Failed to read Trip IDs: '' @ stringified dataFind)))
   \<and> (snd (getAccessToken c w) = Inr token \<and> snd (readTripIds c w token) = Inr colVals
        \<and> findRowByKey tripId colVals = Some rowNumber
        \<and> cellWrites (worksheetName c) (columnMappings c) rowNumber updates \<noteq> []
        \<and> batchResponse w = Response False statusText (Json (Some m)) \<and> m \<noteq> [] \<longrightarrow>
      last (fst (updateLead c w tripId updates)) = Alert (''Lead update failed: '' @ m))"
proof -
  have 1: "snd (appendLead c w lead) = Inl err" if "snd (getAccessToken c w) = Inl err"
    using that by (cases "getAccessToken c w") (simp add: appendLead_def andThen_def)
  have 2: "snd (appendLead c w lead) = Inl (Error (''Failed to append lead: '' @ text))"
    if "snd (getAccessToken c w) = Inr token"
      "recordToRow (dateNow w) lead (columnMappings c) = Inr row"
      "appendResponse w = Response False statusText text"
    using that by (simp add: appendLead_sent)
  have 3: "snd (fetchLeads c w) = Inl (Error ''Failed to fetch leads.'')"
    if "valuesResponse w = Response False statusText body"
    using that by (simp add: fetchLeads_def)
  have 6: "snd (updateLeadTry c w tripId updates) =
        Inl (Error (''Failed to read Trip IDs: '' @ stringified dataFind))"
    if tok: "snd (getAccessToken c w) = Inr token"
      and v: "valuesResponse w = Response False statusText (Json dataFind)"
    by (simp add: updateLeadTry_def getAccessToken_Inr [OF tok] andThen_def
          readTripIds_rejected [OF v])
  have 7: "last (fst (updateLead c w tripId updates)) = Alert (''Lead update failed: '' @ m)"
    if tok: "snd (getAccessToken c w) = Inr token"
      and col: "snd (readTripIds c w token) = Inr colVals"
      and f: "findRowByKey tripId colVals = Some rowNumber"
      and cw: "cellWrites (worksheetName c) (columnMappings c) rowNumber updates \<noteq> []"
      and b: "batchResponse w = Response False statusText (Json (Some m))" and m: "m \<noteq> []"
    by (simp add: updateLead_def updateLeadTry_lookup [OF tok col] f cw
          batchUpdate_rejected [OF b m])
  from 1 2 3 6 7 updateLead_returns [of c w tripId updates]
    updateLead_alert [of c w tripId updates err]
  show ?thesis by blast
qed

theorem failures_reach_caller_or_alert_witness:
  "snd (getAccessToken exampleClient tokenlessWorld) = Inl (Error ''Failed to get access token.'')
   \<and> snd (appendLead exampleClient tokenlessWorld [(''status'', Some ''Unfollowed'')]) =
       Inl (Error ''Failed to get access token.'')
   \<and> snd (getAccessToken exampleClient refusingWorld) = Inr ''token''
   \<and> recordToRow (dateNow refusingWorld) [(''status'', Some ''Unfollowed'')]
       (columnMappings exampleClient) = Inr [''T1700000000000'', ''Unfollowed'']
   \<and> appendResponse refusingWorld = Response False ''Too Many Requests'' ''Quota exceeded.''
   \<and> snd (appendLead exampleClient refusingWorld [(''status'', Some ''Unfollowed'')]) =
       Inl (Error (''Failed to append lead: '' @ ''Quota exceeded.''))
   \<and> valuesResponse refusingWorld =
       Response False ''Too Many Requests''
         (Json \<lparr>stringified = ''{error: quota}'', values = None\<rparr>)
   \<and> snd (fetchLeads exampleClient refusingWorld) = Inl (Error ''Failed to fetch leads.'')
   \<and> snd (updateLeadTry exampleClient refusingWorld ''T1'' [(''status'', Some ''Hot Leads'')]) =
       Inl (Error (''Failed to read Trip IDs: '' @ ''{error: quota}''))
   \<and> snd (updateLead exampleClient refusingWorld ''T1'' [(''status'', Some ''Hot Leads'')]) = Inr ()
   \<and> last (fst (updateLead exampleClient refusingWorld ''T1'' [(''status'', Some ''Hot Leads'')])) =
       Alert (''Error updating lead: '' @ ''Failed to read Trip IDs: '' @ ''{error: quota}'')
   \<and> snd (getAccessToken exampleClient protectedWorld) = Inr ''token''
   \<and> snd (readTripIds exampleClient protectedWorld ''token'') = Inr [''T0'', ''T1'']
   \<and> findRowByKey ''T1'' [''T0'', ''T1''] = Some 3
   \<and> cellWrites (worksheetName exampleClient) (columnMappings exampleClient) 3
        [(''status'', Some ''Hot Leads'')] \<noteq> []
   \<and> batchResponse protectedWorld =
        Response False ''Forbidden'' (Json (Some ''The range is protected.''))
   \<and> last (fst (updateLead exampleClient protectedWorld ''T1'' [(''status'', Some ''Hot Leads'')])) =
       Alert (''Lead update failed: '' @ ''The range is protected.'')"
proof -
  let ?lead = "[(''status'', Some ''Unfollowed'')]"
  let ?updates = "[(''status'', Some ''Hot Leads'')]"
  let ?body = "\<lparr>stringified = ''{error: quota}'', values = None\<rparr>"
  let ?err = "Error (''Failed to read Trip IDs: '' @ ''{error: quota}'')"
  have row: "recordToRow (dateNow refusingWorld) ?lead (columnMappings exampleClient) =
      Inr [''T1700000000000'', ''Unfollowed'']"
    using example_status_row by (simp add: refusingWorld_def exampleWorld_def exampleClient_def)
  have app: "appendResponse refusingWorld = Response False ''Too Many Requests'' ''Quota exceeded.''"
    by (simp add: refusingWorld_def)
  have val: "valuesResponse refusingWorld = Response False ''Too Many Requests'' (Json ?body)"
    by (simp add: refusingWorld_def)
  have f: "findRowByKey ''T1'' [''T0'', ''T1''] = Some 3"
    by (simp add: findRowByKey_def)
  have cw: "cellWrites (worksheetName exampleClient) (columnMappings exampleClient) 3 ?updates \<noteq> []"
    by (simp add: cellWrites_def isWritten_def columnOf_def exampleClient_def)
  have b: "batchResponse protectedWorld =
        Response False ''Forbidden'' (Json (Some ''The range is protected.''))"
    by (simp add: protectedWorld_def)
  have m: "''The range is protected.'' \<noteq> []" by simp
  from failures_reach_caller_or_alert
    [of exampleClient tokenlessWorld "Error ''Failed to get access token.''" ?lead]
    tokenless_token
  have 1: "snd (appendLead exampleClient tokenlessWorld ?lead) =
       Inl (Error ''Failed to get access token.'')"
    by blast
  note inst = failures_reach_caller_or_alert
    [of exampleClient refusingWorld ?err ?lead "''token''" "[''T1700000000000'', ''Unfollowed'']"
        "''Too Many Requests''" "''Quota exceeded.''" "Json ?body" "''T1''" ?updates ?body]
  from inst refusing_token row app
  have 2: "snd (appendLead exampleClient refusingWorld ?lead) =
       Inl (Error (''Failed to append lead: '' @ ''Quota exceeded.''))"
    by blast
  from inst val
  have 3: "snd (fetchLeads exampleClient refusingWorld) = Inl (Error ''Failed to fetch leads.'')"
    by blast
  from inst refusing_token val
  have 4: "snd (updateLeadTry exampleClient refusingWorld ''T1'' ?updates) = Inl ?err"
    by (simp del: append.simps)
  from inst
  have 5: "snd (updateLead exampleClient refusingWorld ''T1'' ?updates) = Inr ()"
    by blast
  from inst 4
  have 6: "last (fst (updateLead exampleClient refusingWorld ''T1'' ?updates)) =
       Alert (''Error updating lead: '' @ ''Failed to read Trip IDs: '' @ ''{error: quota}'')"
    by simp
  from failures_reach_caller_or_alert
    [of exampleClient protectedWorld _ _ "''token''" _ "''Forbidden''" _ _ "''T1''" ?updates _
        "[''T0'', ''T1'']" 3 "''The range is protected.''"]
    protected_token protected_column f cw b m
  have 7: "last (fst (updateLead exampleClient protectedWorld ''T1'' ?updates)) =
       Alert (''Lead update failed: '' @ ''The range is protected.'')"
    by blast
  from tokenless_token 1 refusing_token row app 2 val 3 4 5 6 protected_token protected_column
    f cw b 7
  show ?thesis by blast
qed

text \<open>
  On the example client \<open>updateLead\<close> returns normally after a trip identifier is not
  found, and the error of a refused \<open>fetchLeads\<close> does not carry the provider's payload.
\<close>

theorem updateLead_swallows_not_found_counterexample:
  "findRowByKey ''T9'' [''T0'', ''T1''] = None
   \<and> updateLead exampleClient exampleWorld ''T9'' [(''status'', Some ''Hot Leads'')] =
        ([Fetch TokenExchange, Fetch (GetColumn ''1AbC-_9'' ''Sheet!A2:A10000'' ''token''),
          Alert ''Trip ID T9 not found in Google Sheet.'',
          ConsoleError ''UpdateLead error:'',
          Alert ''Error updating lead: Trip ID T9 not found.''],
         Inr ())
   \<and> fetchLeads exampleClient refusingWorld =
        ([Fetch (GetValues ''1AbC-_9'' ''Sheet!A2:AZ10000'' ''key'')],
         Inl (Error ''Failed to fetch leads.''))"
proof -
  have f: "findRowByKey ''T9'' [''T0'', ''T1''] = None"
    by (simp add: findRowByKey_def)
  have "updateLead exampleClient exampleWorld ''T9'' [(''status'', Some ''Hot Leads'')] =
        ([Fetch TokenExchange, Fetch (GetColumn ''1AbC-_9'' ''Sheet!A2:A10000'' ''token''),
          Alert ''Trip ID T9 not found in Google Sheet.'',
          ConsoleError ''UpdateLead error:'',
          Alert ''Error updating lead: Trip ID T9 not found.''],
         Inr ())"
    by (simp add: updateLead_def updateLeadTry_lookup [OF example_token example_column] f
          example_keyRange) (simp add: exampleClient_def)
  moreover have "fetchLeads exampleClient refusingWorld =
        ([Fetch (GetValues ''1AbC-_9'' ''Sheet!A2:AZ10000'' ''key'')],
         Inl (Error ''Failed to fetch leads.''))"
    by (simp add: fetchLeads_def refusingWorld_def worksheetName_def exampleClient_def)
  ultimately show ?thesis using f by simp
qed

text \<open>
  What the \<open>catch\<close> block does with an error that reaches it, in a module that binds
  both names: an error whose message contains \<open>protected\<close> opens the protection dialog,
  any other error is shown in a destructive toast. The error that \<open>appendLead\<close> of
  \<open>GoogleSheets\<close> throws for a refused append contains \<open>protected\<close> when the provider's
  text does.
\<close>

lemma handleSubmit_catch:
  assumes "authLib scope = Some session"
    and "GoogleSheetsBackendService scope = Some service"
    and "service (formLead formData today (case session of Some name \<Rightarrow> name | None \<Rightarrow> [])) =
           (fx, Inl err)"
  shows "handleSubmit scope formData today =
    (if stringIncludes (message err) ''protected''
     then ([SetSaving True, SetShowProtectionError True, SetSaving False], fx)
     else ([SetSaving True, ToastDestructive ''Error adding lead'' (message err),
            SetSaving False], fx))"
proof -
  have "isProtectionError err \<longleftrightarrow> stringIncludes (message err) ''protected''"
    by (cases "message err") (simp_all add: isProtectionError_def)
  then show ?thesis
    by (simp add: handleSubmit_def handleSubmitTry_def assms)
qed

lemma refused_append_protected:
  assumes "stringIncludes text ''protected''"
  shows "isProtectionError (Error (''Failed to append lead: '' @ text))"
  unfolding isProtectionError_def message.simps
  using stringIncludes_append [OF assms, of "''Failed to append lead: ''"] by simp

text \<open>
  C8. An append that the provider refuses with a text containing \<open>protected\<close> is to open
  the protection dialog. The dialog as it stands does not get that far: the first
  statement of its \<open>try\<close> block evaluates \<open>authLib\<close>, which the module does not bind, so
  for every form a ReferenceError is thrown before \<open>appendLead\<close> is called. No request
  is sent, whatever the provider would answer, and the \<open>catch\<close> block shows the
  destructive toast with the message \<open>authLib is not defined\<close>; the protection dialog is
  not opened.
\<close>

theorem handleSubmit_stops_before_append:
  "handleSubmit dialogScope formData today =
     ([SetSaving True, ToastDestructive ''Error adding lead'' ''authLib is not defined'',
       SetSaving False], [])"
  by (simp add: handleSubmit_def handleSubmitTry_def dialogScope_def isProtectionError_def)

section \<open>Rows that are appended\<close>

lemma foldl_max_mem: "foldl max (a::int) xs \<in> set (a # xs)"
proof (induction xs arbitrary: a)
  case Nil
  then show ?case by simp
next
  case (Cons x xs)
  have "foldl max (max a x) xs \<in> set (max a x # xs)" by (rule Cons.IH)
  moreover have "max a x = a \<or> max a x = x" by (simp add: max_def)
  ultimately show ?case by auto
qed

lemma maxCol_mem:
  assumes "maxCol cm = Some m"
  shows "\<exists>(k, c) \<in> set cm. columnToIndex c = m"
proof -
  let ?idx = "map (\<lambda>(key, col). columnToIndex col) cm"
  from assms obtain i rest where split: "?idx = i # rest" and m: "m = foldl max i rest"
    by (auto simp: maxCol_def split: list.splits)
  have "m \<in> set ?idx" unfolding split m by (rule foldl_max_mem)
  then show ?thesis by auto
qed

lemma recordToRow_succeeds:
  assumes mem: "(key, col) \<in> set cm" and nonneg: "0 \<le> columnToIndex col"
    and bound: "\<forall>(k, c) \<in> set cm. columnToIndex c < 4294967295"
  shows "\<exists>row. recordToRow now lead cm = Inr row"
proof -
  from maxCol_ge [OF mem] obtain m where m: "maxCol cm = Some m" "columnToIndex col \<le> m"
    by blast
  from maxCol_mem [OF m(1)] bound have "m < 4294967295" by auto
  with m nonneg show ?thesis by (simp add: recordToRow_def newArray_def)
qed

lemma example_columns:
  "columnToIndex ''A'' = 0" "columnToIndex ''B'' = 1"
  by (simp_all add: columnToIndex_def columnStep_def charCode_def)

text \<open>
  C6, as the code has it. Let the column mapping have a \<open>tripId\<close> entry whose column
  index is not negative and is the index of no other mapped field, and let every mapped
  index be below \<open>2^32 - 1\<close>. Then \<open>appendLead\<close> builds a row, sends it in the
  append request, and its cell at the \<open>tripId\<close> column is: for a lead whose \<open>tripId\<close>
  is absent or empty, \<open>T\<close> followed by the decimal digits of the clock's milliseconds
  (at least one digit); for a lead with a non-empty \<open>tripId\<close>, that identifier as it is.
\<close>

theorem appendLead_tripId_cell:
  assumes "(''tripId'', col) \<in> set (columnMappings c)"
    and "0 \<le> columnToIndex col"
    and "\<forall>(key, col') \<in> set (columnMappings c).
           key \<noteq> ''tripId'' \<longrightarrow> columnToIndex col' \<noteq> columnToIndex col"
    and "\<forall>(key, col') \<in> set (columnMappings c). columnToIndex col' < 4294967295"
  shows "\<exists>row. recordToRow (dateNow w) lead (columnMappings c) = Inr row
    \<and> (snd (getAccessToken c w) = Inr token \<longrightarrow>
         requests (fst (appendLead c w lead)) =
           [TokenExchange, AppendValues (sheetId c) (worksheetName c) token row])
    \<and> (field lead ''tripId'' = None \<or> field lead ''tripId'' = Some [] \<longrightarrow>
         cellAt row (columnToIndex col) = ''T'' @ decimal (dateNow w)
         \<and> decimal (dateNow w) \<noteq> [] \<and> list_all isDigit (decimal (dateNow w)))
    \<and> (\<forall>t. field lead ''tripId'' = Some t \<and> t \<noteq> [] \<longrightarrow>
         cellAt row (columnToIndex col) = t)"
proof -
  from recordToRow_succeeds [OF assms(1,2,4)]
  obtain row where row: "recordToRow (dateNow w) lead (columnMappings c) = Inr row"
    by blast
  have cell: "cellAt row (columnToIndex col) = tripIdOrNew (dateNow w) lead"
    using recordToRow_cell [OF row assms(1,2,3)] by (simp add: written_def)
  have "requests (fst (appendLead c w lead)) =
           [TokenExchange, AppendValues (sheetId c) (worksheetName c) token row]"
    if "snd (getAccessToken c w) = Inr token"
    by (simp add: appendLead_sent [OF that row] requests_simps)
  moreover have "cellAt row (columnToIndex col) = ''T'' @ decimal (dateNow w)"
    if "field lead ''tripId'' = None \<or> field lead ''tripId'' = Some []"
    using that cell by (auto simp: tripIdOrNew_def)
  moreover have "cellAt row (columnToIndex col) = t"
    if "field lead ''tripId'' = Some t \<and> t \<noteq> []" for t
    using that cell by (simp add: tripIdOrNew_def)
  ultimately show ?thesis using row decimal_digits [of "dateNow w"] by blast
qed

theorem appendLead_tripId_cell_witness:
  "field [(''status'', Some ''Unfollowed'')] ''tripId'' = None
   \<and> field [(''tripId'', Some ''T42''), (''status'', Some ''Unfollowed'')] ''tripId'' = Some ''T42''
   \<and> (\<exists>row. recordToRow (dateNow exampleWorld) [(''status'', Some ''Unfollowed'')]
               (columnMappings exampleClient) = Inr row
        \<and> requests (fst (appendLead exampleClient exampleWorld [(''status'', Some ''Unfollowed'')])) =
            [TokenExchange,
             AppendValues (sheetId exampleClient) (worksheetName exampleClient) ''token'' row]
        \<and> cellAt row (columnToIndex ''A'') = ''T'' @ decimal (dateNow exampleWorld))
   \<and> (\<exists>row. recordToRow (dateNow exampleWorld)
               [(''tripId'', Some ''T42''), (''status'', Some ''Unfollowed'')]
               (columnMappings exampleClient) = Inr row
        \<and> cellAt row (columnToIndex ''A'') = ''T42'')"
proof -
  have h1: "(''tripId'', ''A'') \<in> set (columnMappings exampleClient)"
    by (simp add: exampleClient_def)
  have h2: "0 \<le> columnToIndex ''A''" by (simp add: example_columns)
  have h3: "\<forall>(key, col') \<in> set (columnMappings exampleClient).
           key \<noteq> ''tripId'' \<longrightarrow> columnToIndex col' \<noteq> columnToIndex ''A''"
    by (simp add: exampleClient_def example_columns)
  have h4: "\<forall>(key, col') \<in> set (columnMappings exampleClient). columnToIndex col' < 4294967295"
    by (simp add: exampleClient_def example_columns)
  have f1: "field [(''status'', Some ''Unfollowed'')] ''tripId'' = None"
    by (simp add: field_def)
  have f2: "field [(''tripId'', Some ''T42''), (''status'', Some ''Unfollowed'')] ''tripId'' = Some ''T42''"
    by (simp add: field_def)
  have n: "''T42'' \<noteq> []" by simp
  from appendLead_tripId_cell [OF h1 h2 h3 h4, of exampleWorld "[(''status'', Some ''Unfollowed'')]" "''token''"]
    f1 example_token
  have 1: "\<exists>row. recordToRow (dateNow exampleWorld) [(''status'', Some ''Unfollowed'')]
               (columnMappings exampleClient) = Inr row
        \<and> requests (fst (appendLead exampleClient exampleWorld [(''status'', Some ''Unfollowed'')])) =
            [TokenExchange,
             AppendValues (sheetId exampleClient) (worksheetName exampleClient) ''token'' row]
        \<and> cellAt row (columnToIndex ''A'') = ''T'' @ decimal (dateNow exampleWorld)"
    by blast
  from appendLead_tripId_cell [OF h1 h2 h3 h4, of exampleWorld
      "[(''tripId'', Some ''T42''), (''status'', Some ''Unfollowed'')]" "''token''"]
    f2 n
  have 2: "\<exists>row. recordToRow (dateNow exampleWorld)
               [(''tripId'', Some ''T42''), (''status'', Some ''Unfollowed'')]
               (columnMappings exampleClient) = Inr row
        \<and> cellAt row (columnToIndex ''A'') = ''T42''"
    by blast
  from f1 f2 1 2 show ?thesis by blast
qed

text \<open>
  Without a condition on the mapping the property fails. With no \<open>tripId\<close> entry in
  the mapping no identifier is written: the row has no cell of the form \<open>T\<close> and digits,
  and column \<open>A\<close>, where \<open>updateLead\<close> then looks for identifiers, is empty. With
  \<open>tripId\<close> and \<open>status\<close> both mapped to column \<open>A\<close> the status overwrites the
  identifier.
\<close>

theorem appendLead_tripId_cell_counterexample:
  "recordToRow 1700000000000 [(''status'', Some ''Unfollowed'')] [(''status'', ''B'')] =
     Inr [[], ''Unfollowed'']
   \<and> tripIdCol [(''status'', ''B'')] = ''A''
   \<and> field [(''status'', Some ''Unfollowed'')] ''tripId'' = None
   \<and> recordToRow 1700000000000 [(''status'', Some ''Unfollowed'')]
       [(''tripId'', ''A''), (''status'', ''A'')] = Inr [''Unfollowed'']"
  by (simp add: recordToRow_def maxCol_def newArray_def example_columns rowStep_def
        setCell_def field_def replicate_2 tripIdCol_def columnOf_def tripIdOrNew_def)

text \<open>
  C4, as the code has it. Let the keys of the mapping be distinct and every mapped index
  be below \<open>2^32 - 1\<close>. Then the row is built, and reading it back gives, for every
  mapped field whose column index is not negative and is the index of no other mapped
  field: the lead's value when it has one, the empty string when it has none, and for
  \<open>tripId\<close> the identifier given or, when it is absent or empty, the new one.
\<close>

theorem roundtrip_own_column:
  assumes "distinct (map fst cm)"
    and "(key, col) \<in> set cm"
    and "0 \<le> columnToIndex col"
    and "\<forall>(k, c) \<in> set cm. k \<noteq> key \<longrightarrow> columnToIndex c \<noteq> columnToIndex col"
    and "\<forall>(k, c) \<in> set cm. columnToIndex c < 4294967295"
  shows "\<exists>row. recordToRow now lead cm = Inr row
    \<and> map_of (rowToRecord cm row) key =
        Some (if key = ''tripId'' then tripIdOrNew now lead
              else case field lead key of Some v \<Rightarrow> v | None \<Rightarrow> [])"
proof -
  from recordToRow_succeeds [OF assms(2,3,5)]
  obtain row where row: "recordToRow now lead cm = Inr row" by blast
  have "map_of (rowToRecord cm row) key = Some (cellAt row (columnToIndex col))"
    using assms(1,2) by (rule map_of_rowToRecord)
  also have "cellAt row (columnToIndex col) =
      (case written now lead key of Some v \<Rightarrow> v | None \<Rightarrow> [])"
    by (rule recordToRow_cell [OF row assms(2,3,4)])
  also have "\<dots> = (if key = ''tripId'' then tripIdOrNew now lead
              else case field lead key of Some v \<Rightarrow> v | None \<Rightarrow> [])"
    by (simp add: written_def)
  finally show ?thesis using row by blast
qed

theorem roundtrip_own_column_witness:
  "distinct (map fst [(''tripId'', ''A''), (''status'', ''B'')])
   \<and> (''status'', ''B'') \<in> set [(''tripId'', ''A''), (''status'', ''B'')]
   \<and> 0 \<le> columnToIndex ''B''
   \<and> field [(''status'', Some ''Hot Leads'')] ''status'' = Some ''Hot Leads''
   \<and> (\<exists>row. recordToRow 1700000000000 [(''status'', Some ''Hot Leads'')]
               [(''tripId'', ''A''), (''status'', ''B'')] = Inr row
        \<and> map_of (rowToRecord [(''tripId'', ''A''), (''status'', ''B'')] row) ''status'' =
            Some ''Hot Leads'')"
proof -
  let ?cm = "[(''tripId'', ''A''), (''status'', ''B'')]"
  have h1: "distinct (map fst ?cm)" by simp
  have h2: "(''status'', ''B'') \<in> set ?cm" by simp
  have h3: "0 \<le> columnToIndex ''B''" by (simp add: example_columns)
  have h4: "\<forall>(k, c) \<in> set ?cm. k \<noteq> ''status'' \<longrightarrow> columnToIndex c \<noteq> columnToIndex ''B''"
    by (simp add: example_columns)
  have h5: "\<forall>(k, c) \<in> set ?cm. columnToIndex c < 4294967295"
    by (simp add: example_columns)
  have f: "field [(''status'', Some ''Hot Leads'')] ''status'' = Some ''Hot Leads''"
    by (simp add: field_def)
  from roundtrip_own_column [OF h1 h2 h3 h4 h5, of 1700000000000 "[(''status'', Some ''Hot Leads'')]"]
  have "\<exists>row. recordToRow 1700000000000 [(''status'', Some ''Hot Leads'')] ?cm = Inr row
        \<and> map_of (rowToRecord ?cm row) ''status'' = Some ''Hot Leads''"
    by (simp add: f)
  with h1 h2 h3 f show ?thesis by blast
qed

text \<open>
  For an arbitrary column mapping the property fails: with \<open>status\<close> and \<open>remarks\<close>
  both mapped to column \<open>B\<close>, the status reads back as the remarks.
\<close>

theorem roundtrip_shared_column_counterexample:
  "recordToRow 1700000000000 [(''status'', Some ''Hot Leads''), (''remarks'', Some ''call back'')]
     [(''status'', ''B''), (''remarks'', ''B'')] = Inr [[], ''call back'']
   \<and> field [(''status'', Some ''Hot Leads''), (''remarks'', Some ''call back'')] ''status'' =
       Some ''Hot Leads''
   \<and> map_of (rowToRecord [(''status'', ''B''), (''remarks'', ''B'')] [[], ''call back''])
       ''status'' = Some ''call back''"
  by (simp add: recordToRow_def maxCol_def newArray_def example_columns rowStep_def
        setCell_def field_def replicate_2 rowToRecord_def cellAt_def)

end
